theory Spec2Isabelle
  imports Complex_Main "HOL-Library.AList" "HOL-Library.Multiset"
begin

section \<open>Outlier classification (phylorank/outliers.py)\<close>

text \<open>
  Relative evolutionary divergence (RED) values are Python floats; they are modelled as
  reals. A table \<open>d[rank_index][taxon] -> RED\<close> is a dictionary of dictionaries and is
  modelled as an association list of association lists, whose keys are pairwise
  distinct as the keys of a dictionary are. Where a float can be \<open>nan\<close> it has the type
  \<open>pyfloat\<close>, with \<open>None\<close> for \<open>nan\<close>.
\<close>

type_synonym pyfloat = "real option"
type_synonym rank_table = "(string \<times> real) list"
type_synonym rel_dists = "(nat \<times> rank_table) list"

datatype classification =
    OK
  | Very_overclassified
  | Overclassified
  | Very_underclassified
  | Underclassified
  | Insufficient_data

text \<open>
  \<open>numpy.median\<close>: the middle element of the sorted sequence, or the mean of the two
  middle elements. On an empty sequence numpy returns \<open>nan\<close>, which is \<open>None\<close> here.
\<close>

definition np_median :: "real list \<Rightarrow> real option" where
  "np_median xs =
     (let s = sort xs; n = length xs
      in if n = 0 then None
         else if odd n then Some (s ! (n div 2))
         else Some ((s ! (n div 2 - 1) + s ! (n div 2)) / 2))"

text \<open>
  The \<open>if\<close>/\<open>elif\<close> chain of \<open>_median_outlier_file\<close> (lines 371-379) and of
  \<open>_median_summary_outlier_file\<close> (lines 637-645).
\<close>

definition classify :: "real \<Rightarrow> classification" where
  "classify delta =
     (if delta < - 0.2 then Very_overclassified
      else if delta < - 0.1 then Overclassified
      else if delta > 0.2 then Very_underclassified
      else if delta > 0.1 then Underclassified
      else OK)"




text \<open>
  The search for the rank whose median is closest to a value (lines 364-369): a rank
  replaces the current candidate only when it is strictly closer; the start distance is
  \<open>1e10\<close>. The rank index stands for its label \<open>Taxonomy.rank_labels[test_rank]\<close>.
\<close>

definition closest_rank_step :: "real \<Rightarrow> real \<times> nat option \<Rightarrow> nat \<times> real \<Rightarrow> real \<times> nat option" where
  "closest_rank_step rd st e =
     (let abs_dist = \<bar>rd - snd e\<bar>
      in if abs_dist < fst st then (abs_dist, Some (fst e)) else st)"

definition closest_rank :: "(nat \<times> real) list \<Rightarrow> real \<Rightarrow> nat option" where
  "closest_rank medians rd = snd (foldl (closest_rank_step rd) (10 ^ 10, None) medians)"

record outlier_row =
  clade_label :: string
  distance :: pyfloat
  difference :: pyfloat
  closest :: "nat option"
  classification :: classification

text \<open>One line of the table written by \<open>_median_outlier_file\<close> (lines 361-393).\<close>

definition median_outlier_row :: "(nat \<times> real) list \<Rightarrow> nat \<Rightarrow> string \<times> real \<Rightarrow> outlier_row" where
  "median_outlier_row medians rank e =
     (case map_of medians rank of
        Some m \<Rightarrow>
          (let delta = snd e - m
           in \<lparr>clade_label = fst e, distance = Some (snd e), difference = Some delta,
               closest = closest_rank medians (snd e), classification = classify delta\<rparr>)
      | None \<Rightarrow>
          \<lparr>clade_label = fst e, distance = Some (snd e), difference = Some (- 1),
           closest = None, classification = Insufficient_data\<rparr>)"







section \<open>Consensus tables over several rootings\<close>

text \<open>
  \<open>phylum_rel_dists[phylum][rank_index][taxon]\<close> is a dictionary keyed by the name of the
  rooting. \<open>taxa_median_rd\<close> (lines 405-411) collects, for every rank and taxon, the list
  of the values seen over the rootings; the two levels of \<open>defaultdict\<close> create a missing
  entry on first use.
\<close>

type_synonym taxa_dists = "(nat \<times> (string \<times> real list) list) list"

definition append_dist :: "nat \<Rightarrow> string \<Rightarrow> real \<Rightarrow> taxa_dists \<Rightarrow> taxa_dists" where
  "append_dist rank taxon rd m =
     (let d = (case map_of m rank of None \<Rightarrow> [] | Some d \<Rightarrow> d);
          ds = (case map_of d taxon of None \<Rightarrow> [] | Some ds \<Rightarrow> ds)
      in AList.update rank (AList.update taxon (ds @ [rd]) d) m)"

definition taxa_median_rd :: "(string \<times> rel_dists) list \<Rightarrow> taxa_dists" where
  "taxa_median_rd phylum_rel_dists =
     foldl (\<lambda>m (p, rds).
        foldl (\<lambda>m (rank, d).
           foldl (\<lambda>m (taxon, rd). append_dist rank taxon rd m) m d) m rds)
       [] phylum_rel_dists"

text \<open>
  \<open>rank_median_rd\<close> (lines 424-433). The list \<open>v\<close> holds the median of every taxon usable
  for inference; every list of \<open>medians_for_taxa\<close> was created by an append, so none of
  these medians is \<open>nan\<close>, and \<open>if v\<close> skips a rank without such a taxon.
\<close>

definition trusted_medians :: "string set \<Rightarrow> (string \<times> real list) list \<Rightarrow> real list" where
  "trusted_medians taxa_for_dist_inference td =
     concat (map (\<lambda>(taxon, dists).
        if taxon \<in> taxa_for_dist_inference
        then (case np_median dists of None \<Rightarrow> [] | Some x \<Rightarrow> [x]) else []) td)"

definition rank_median_rd :: "(string \<times> rel_dists) list \<Rightarrow> string set \<Rightarrow> (nat \<times> real) list" where
  "rank_median_rd phylum_rel_dists taxa_for_dist_inference =
     foldl (\<lambda>acc (rank, td).
        (case np_median (trusted_medians taxa_for_dist_inference td) of
           None \<Rightarrow> acc
         | Some m \<Rightarrow> AList.update rank m acc))
       [] (sort_key fst (taxa_median_rd phylum_rel_dists))"

text \<open>
  One line of the table of \<open>_median_summary_outlier_file\<close> (lines 624-661) for a rank
  with median \<open>m\<close>. A \<open>nan\<close> difference fails every comparison of the chain, which
  leaves the initial \<open>"OK"\<close>.
\<close>

definition median_summary_row :: "(nat \<times> real) list \<Rightarrow> real \<Rightarrow> string \<times> real list \<Rightarrow> outlier_row" where
  "median_summary_row median_for_rank m e =
     (case np_median (snd e) of
        Some taxon_median \<Rightarrow>
          (let delta = taxon_median - m
           in \<lparr>clade_label = fst e, distance = Some taxon_median, difference = Some delta,
               closest = closest_rank median_for_rank taxon_median, classification = classify delta\<rparr>)
      | None \<Rightarrow>
          \<lparr>clade_label = fst e, distance = None, difference = None,
           closest = None, classification = OK\<rparr>)"

definition median_summary_outlier_file :: "(string \<times> rel_dists) list \<Rightarrow> string set \<Rightarrow> outlier_row list" where
  "median_summary_outlier_file phylum_rel_dists taxa_for_dist_inference =
     (let medians_for_taxa = taxa_median_rd phylum_rel_dists;
          median_for_rank = rank_median_rd phylum_rel_dists taxa_for_dist_inference
      in concat (map (\<lambda>(rank, m).
           map (median_summary_row median_for_rank m)
               (case map_of medians_for_taxa rank of None \<Rightarrow> [] | Some d \<Rightarrow> d))
           (sort_key fst median_for_rank)))"

section \<open>Trees, the object store and the tree library\<close>

text \<open>
  A dendropy node with the attributes the program reads and writes: \<open>id\<close> (set by
  \<open>median_rd_over_phyla\<close>), \<open>label\<close>, \<open>taxon.label\<close>, \<open>edge_length\<close>, \<open>rel_dist\<close> (set by
  the divergence calculator and by \<open>run\<close>) and the child nodes. An attribute that may be
  unset or \<open>None\<close> is an option; a float attribute that may also hold \<open>nan\<close> is an
  option of a \<open>pyfloat\<close>. A tree is its seed node.
\<close>

datatype node = Node (nid: "nat option") (nlabel: "string option") (taxon_label: "string option")
  (edge_length: "pyfloat option") (rel_dist: "pyfloat option") (child_nodes: "node list")

datatype error = SystemExit int | AttributeError | TypeError | ValueError

fun preorder_node_iter :: "node \<Rightarrow> node list" where
  "preorder_node_iter (Node i l t e r cs) = Node i l t e r cs # concat (map preorder_node_iter cs)"

fun leaf_node_iter :: "node \<Rightarrow> node list" where
  "leaf_node_iter (Node i l t e r cs) =
     (if cs = [] then [Node i l t e r cs] else concat (map leaf_node_iter cs))"

text \<open>Float arithmetic with \<open>nan\<close>: a \<open>nan\<close> operand gives \<open>nan\<close>.\<close>

definition fsub :: "pyfloat \<Rightarrow> pyfloat \<Rightarrow> pyfloat" where
  "fsub a b = (case a of None \<Rightarrow> None | Some x \<Rightarrow> (case b of None \<Rightarrow> None | Some y \<Rightarrow> Some (x - y)))"

definition half :: "pyfloat \<Rightarrow> pyfloat" where
  "half l = map_option (\<lambda>x. 0.5 * x) l"

text \<open>
  The code of other modules and libraries is a parameter of the model: dendropy's
  \<open>reroot_at_edge\<close> (tree, head node of the edge, the two lengths; the result is the
  rerooted tree) and \<open>mrca\<close>, the divergence calculator \<open>RelativeDistance\<close>
  (\<open>rel_dist_to_named_clades\<close>, and \<open>decorate_rel_dist\<close>, whose result is the decorated
  tree), \<open>get_phyla_lineages\<close>, \<open>parse_label\<close> (support, taxon name, auxiliary
  information), and \<open>Taxonomy.children\<close> and \<open>Taxonomy.read_from_tree\<close> of biolib.
\<close>

type_synonym taxonomy = "(string \<times> string list) list"

record env =
  reroot_at_edge :: "node \<Rightarrow> node \<Rightarrow> pyfloat \<Rightarrow> pyfloat \<Rightarrow> node"
  mrca :: "node \<Rightarrow> string list \<Rightarrow> node"
  rel_dist_to_named_clades :: "node \<Rightarrow> rel_dists"
  decorate_rel_dist :: "node \<Rightarrow> node"
  get_phyla_lineages :: "node \<Rightarrow> string list"
  parse_label :: "string option \<Rightarrow> pyfloat option \<times> string option \<times> string option"
  taxonomy_children :: "string \<Rightarrow> taxonomy \<Rightarrow> string list"
  read_from_tree :: "node \<Rightarrow> taxonomy"

text \<open>
  Tree objects are mutable and shared by reference. The store maps the address of a
  tree object to its current value; \<open>nxt\<close> is the first unused address. \<open>draws\<close> counts
  the numbers taken from the random source, a sequence \<open>rnd\<close> given to the functions
  that draw.
\<close>

record world =
  objs :: "nat \<Rightarrow> node"
  nxt :: nat
  draws :: nat

text \<open>\<open>Tree.clone()\<close>: a new tree object whose nodes and edges are copies.\<close>

definition clone :: "world \<Rightarrow> nat \<Rightarrow> world \<times> nat" where
  "clone w r = (w\<lparr>objs := (objs w)(nxt w := objs w r), nxt := Suc (nxt w)\<rparr>, nxt w)"

section \<open>Rerooting on an outgroup\<close>

text \<open>
  Lines 95-98: a genome is in the outgroup when its taxonomy holds the outgroup taxon.
\<close>

definition in_outgroup :: "taxonomy \<Rightarrow> string \<Rightarrow> string \<Rightarrow> bool" where
  "in_outgroup taxonomy outgroup_taxa genome_id =
     (case map_of taxonomy genome_id of None \<Rightarrow> False | Some taxa \<Rightarrow> outgroup_taxa \<in> set taxa)"

text \<open>
  Lines 101-107. \<open>outgroup_in_tree\<close> is a set of taxa and is kept here as the list of
  their labels without repetition. \<open>ingroup_in_tree\<close> is a set of leaf node objects of
  the tree; the objects stay the leaves of the tree when it is rerooted, so their
  state at an attempt is read from the tree as it then is.
\<close>

definition outgroup_in_tree :: "taxonomy \<Rightarrow> string \<Rightarrow> node \<Rightarrow> string list" where
  "outgroup_in_tree taxonomy outgroup_taxa t =
     remdups (concat (map (\<lambda>n. case taxon_label n of None \<Rightarrow> []
                               | Some l \<Rightarrow> if in_outgroup taxonomy outgroup_taxa l then [l] else [])
                          (leaf_node_iter t)))"

definition ingroup_in_tree :: "taxonomy \<Rightarrow> string \<Rightarrow> node \<Rightarrow> node list" where
  "ingroup_in_tree taxonomy outgroup_taxa t =
     filter (\<lambda>n. case taxon_label n of None \<Rightarrow> True
                  | Some l \<Rightarrow> \<not> in_outgroup taxonomy outgroup_taxa l)
            (leaf_node_iter t)"

text \<open>
  One pass through the body of the \<open>while True\<close> loop (lines 125-131).
  \<open>random.sample\<close> raises \<open>ValueError\<close> on an empty population, and \<open>0.5 * None\<close> raises
  \<open>TypeError\<close>. The result is the store after the reroot, the MRCA and its leaf count.
\<close>

definition attempt ::
  "env \<Rightarrow> (nat \<Rightarrow> nat) \<Rightarrow> taxonomy \<Rightarrow> string \<Rightarrow> string list \<Rightarrow> nat \<Rightarrow> world \<Rightarrow>
   error + world \<times> node \<times> nat" where
  "attempt E rnd taxonomy outgroup_taxa og new_tree w =
     (let ingroup = ingroup_in_tree taxonomy outgroup_taxa (objs w new_tree)
      in if ingroup = [] then Inl ValueError
         else
           (let rnd_ingroup_leaf = ingroup ! (rnd (draws w) mod length ingroup)
            in case edge_length rnd_ingroup_leaf of
                 None \<Rightarrow> Inl TypeError
               | Some l \<Rightarrow>
                   (let w' = w\<lparr>objs := (objs w)(new_tree :=
                                   reroot_at_edge E (objs w new_tree) rnd_ingroup_leaf (half l) (half l)),
                               draws := Suc (draws w)\<rparr>;
                        m = mrca E (objs w' new_tree) og;
                        leaves_in_mrca = length (leaf_node_iter m)
                    in Inr (w', m, leaves_in_mrca))))"

text \<open>
  The loop of lines 124-133. The source has no counter; \<open>fuel\<close> is the number of passes
  the model may make, and \<open>None\<close> says that they did not suffice.
\<close>

fun reroot_until ::
  "env \<Rightarrow> (nat \<Rightarrow> nat) \<Rightarrow> taxonomy \<Rightarrow> string \<Rightarrow> string list \<Rightarrow> nat \<Rightarrow> nat \<Rightarrow> nat \<Rightarrow> world \<Rightarrow>
   (error + world \<times> node \<times> nat) option" where
  "reroot_until E rnd taxonomy outgroup_taxa og new_tree leaves_in_tree 0 w = None"
| "reroot_until E rnd taxonomy outgroup_taxa og new_tree leaves_in_tree (Suc fuel) w =
     (case attempt E rnd taxonomy outgroup_taxa og new_tree w of
        Inl e \<Rightarrow> Some (Inl e)
      | Inr (w', m, leaves_in_mrca) \<Rightarrow>
          if leaves_in_mrca \<noteq> leaves_in_tree then Some (Inr (w', m, leaves_in_mrca))
          else reroot_until E rnd taxonomy outgroup_taxa og new_tree leaves_in_tree fuel w')"

text \<open>
  \<open>root_with_outgroup\<close> (lines 75-153). \<open>n.taxon.label\<close> raises \<open>AttributeError\<close> on a leaf
  without taxon; \<open>sys.exit(0)\<close> raises \<open>SystemExit\<close>. The messages of the logger are
  left out.
\<close>

definition root_with_outgroup ::
  "env \<Rightarrow> (nat \<Rightarrow> nat) \<Rightarrow> nat \<Rightarrow> world \<Rightarrow> nat \<Rightarrow> taxonomy \<Rightarrow> string \<Rightarrow> (error + world \<times> nat) option" where
  "root_with_outgroup E rnd fuel w input_tree taxonomy outgroup_taxa =
     (let (w1, new_tree) = clone w input_tree
      in if None \<in> set (map taxon_label (leaf_node_iter (objs w1 new_tree)))
         then Some (Inl AttributeError)
         else
           (let og = outgroup_in_tree taxonomy outgroup_taxa (objs w1 new_tree)
            in if length og = 0 then Some (Inl (SystemExit 0))
               else
                 (let leaves_in_tree = length (leaf_node_iter (objs w1 new_tree))
                  in case reroot_until E rnd taxonomy outgroup_taxa og new_tree leaves_in_tree fuel w1 of
                       None \<Rightarrow> None
                     | Some (Inl e) \<Rightarrow> Some (Inl e)
                     | Some (Inr (w2, m, leaves_in_mrca)) \<Rightarrow>
                         (case edge_length m of
                            None \<Rightarrow> Some (Inr (w2, new_tree))
                          | Some l \<Rightarrow>
                              Some (Inr (w2\<lparr>objs := (objs w2)(new_tree :=
                                             reroot_at_edge E (objs w2 new_tree) m (half l) (half l))\<rparr>,
                                         new_tree))))))"



section \<open>Divergence over a single fixed root\<close>

text \<open>
  \<open>rd_fixed_root\<close> (lines 664-685). After the decoration every node other than the seed
  node gets the edge length \<open>n.rel_dist - n.parent_node.rel_dist\<close>; the loop reads the
  \<open>rel_dist\<close> of every node it visits and of the parent, and an unset one raises
  \<open>AttributeError\<close>.
\<close>

fun scale_node :: "pyfloat \<Rightarrow> node \<Rightarrow> node" where
  "scale_node parent_rd (Node i l t e r cs) =
     (let rd = (case r of None \<Rightarrow> None | Some v \<Rightarrow> v)
      in Node i l t (Some (fsub rd parent_rd)) r (map (scale_node rd) cs))"

definition scale_tree :: "node \<Rightarrow> error + node" where
  "scale_tree t =
     (if child_nodes t = [] then Inr t
      else if None \<in> set (map rel_dist (preorder_node_iter t)) then Inl AttributeError
      else Inr (Node (nid t) (nlabel t) (taxon_label t) (edge_length t) (rel_dist t)
                  (map (scale_node (case rel_dist t of None \<Rightarrow> None | Some v \<Rightarrow> v)) (child_nodes t))))"

definition rd_fixed_root :: "env \<Rightarrow> world \<Rightarrow> nat \<Rightarrow> error + world \<times> rel_dists" where
  "rd_fixed_root E w tree =
     (let rel_dists = rel_dist_to_named_clades E (objs w tree);
          w1 = w\<lparr>objs := (objs w)(tree := decorate_rel_dist E (objs w tree))\<rparr>
      in case scale_tree (objs w1 tree) of
           Inl e \<Rightarrow> Inl e
         | Inr t \<Rightarrow> Inr (w1\<lparr>objs := (objs w1)(tree := t)\<rparr>, rel_dists))"

text \<open>
  The paths from the seed node to the leaves, and the sum of the edge lengths of a list
  of nodes (\<open>None\<close> when one of them has no number as edge length).
\<close>

fun leaf_paths :: "node \<Rightarrow> node list list" where
  "leaf_paths (Node i l t e r cs) =
     (if cs = [] then [[Node i l t e r cs]]
      else map ((#) (Node i l t e r cs)) (concat (map leaf_paths cs)))"

fun edge_sum :: "node list \<Rightarrow> real option" where
  "edge_sum [] = Some 0"
| "edge_sum (n # ns) =
     (case edge_length n of
        Some (Some x) \<Rightarrow> map_option ((+) x) (edge_sum ns)
      | _ \<Rightarrow> None)"

text \<open>A tree is decorated when the \<open>rel_dist\<close> of every node is a number.\<close>

definition decorated :: "node \<Rightarrow> bool" where
  "decorated t =
     list_all (\<lambda>n. case rel_dist n of Some (Some x) \<Rightarrow> True | _ \<Rightarrow> False) (preorder_node_iter t)"

section \<open>The median divergence over all phylum rootings\<close>

text \<open>
  Python's \<open>str.replace\<close> (occurrences from the left, not overlapping; with an empty
  pattern the string is left as it is here, which the program never asks for),
  \<open>str.lower\<close> on ASCII letters, and the substring test \<open>p in s\<close>.
\<close>

function str_replace :: "string \<Rightarrow> string \<Rightarrow> string \<Rightarrow> string" where
  "str_replace old new [] = []"
| "str_replace old new (c # cs) =
     (if old \<noteq> [] \<and> take (length old) (c # cs) = old
      then new @ str_replace old new (drop (length old) (c # cs))
      else c # str_replace old new cs)"
  by pat_completeness auto
termination
  by (relation "measure (\<lambda>(old, new, s). length s)") (auto simp: neq_Nil_conv)

definition lower_char :: "char \<Rightarrow> char" where
  "lower_char c =
     (case map_of (zip ''ABCDEFGHIJKLMNOPQRSTUVWXYZ'' ''abcdefghijklmnopqrstuvwxyz'') c of
        None \<Rightarrow> c
      | Some c' \<Rightarrow> c')"

definition lower :: "string \<Rightarrow> string" where
  "lower s = map lower_char s"

fun contains :: "string \<Rightarrow> string \<Rightarrow> bool" where
  "contains p [] = (p = [])"
| "contains p (c # cs) = (take (length p) (c # cs) = p \<or> contains p cs)"

text \<open>Line 748: the name under which the tables of a rooting are stored.\<close>

definition phylum_name :: "string \<Rightarrow> string" where
  "phylum_name p = lower (str_replace '' '' ''_'' (str_replace ''p__'' [] p))"

text \<open>Lines 740-741: every node gets its index in the preorder traversal as \<open>id\<close>.\<close>

fun assign_ids :: "nat \<Rightarrow> node \<Rightarrow> node"
  and assign_ids_list :: "nat \<Rightarrow> node list \<Rightarrow> node list" where
  "assign_ids k (Node i l t e r cs) = Node (Some k) l t e r (assign_ids_list (Suc k) cs)"
| "assign_ids_list k [] = []"
| "assign_ids_list k (c # cs) =
     assign_ids k c # assign_ids_list (k + length (preorder_node_iter c)) cs"

text \<open>
  The two results of \<open>median_rd_over_phyla\<close>: the tables of every rooting, a dictionary
  keyed by the name of the rooting, and \<open>rel_node_dists\<close>, a \<open>defaultdict(list)\<close> from
  node id to the values seen.
\<close>

type_synonym node_dists = "(nat \<times> pyfloat list) list"

definition dists_of :: "node_dists \<Rightarrow> nat \<Rightarrow> pyfloat list" where
  "dists_of rel_node_dists k = (case map_of rel_node_dists k of None \<Rightarrow> [] | Some vs \<Rightarrow> vs)"

text \<open>
  Lines 780-781: \<open>rel_node_dists[n.id].append(n.rel_dist)\<close> for the nodes of the ingroup
  in preorder; a node without \<open>id\<close> or \<open>rel_dist\<close> raises \<open>AttributeError\<close>.
\<close>

fun record_rel_dists :: "node list \<Rightarrow> node_dists \<Rightarrow> error + node_dists" where
  "record_rel_dists [] acc = Inr acc"
| "record_rel_dists (n # ns) acc =
     (case nid n of
        None \<Rightarrow> Inl AttributeError
      | Some k \<Rightarrow>
          (case rel_dist n of
             None \<Rightarrow> Inl AttributeError
           | Some v \<Rightarrow> record_rel_dists ns (AList.update k (dists_of acc k @ [v]) acc)))"

text \<open>
  Lines 755-764: the results for the domain, for the outgroup phylum and for the taxa
  below it are removed from the table of the rooting.
\<close>

definition strip_outgroup :: "string \<Rightarrow> string list \<Rightarrow> rel_dists \<Rightarrow> rel_dists" where
  "strip_outgroup p children rel_dists =
     foldl (\<lambda>rds t. map (\<lambda>(r, d). (r, AList.delete t d)) rds)
           (AList.delete 0 rel_dists) (p # children)"

text \<open>
  Lines 772-777: the first child of the seed node whose label has no taxon name, or
  a taxon name that does not hold the name of the phylum.
\<close>

definition is_ingroup :: "env \<Rightarrow> string \<Rightarrow> node \<Rightarrow> bool" where
  "is_ingroup E p c =
     (case fst (snd (parse_label E (nlabel c))) of
        None \<Rightarrow> True
      | Some taxon_name \<Rightarrow> taxon_name = [] \<or> \<not> contains p taxon_name)"

definition ingroup_subtree :: "env \<Rightarrow> string \<Rightarrow> node \<Rightarrow> node option" where
  "ingroup_subtree E p cur_tree = find (is_ingroup E p) (child_nodes cur_tree)"

text \<open>
  The body of the loop over the phyla (lines 747-781).
  \<open>ingroup_subtree.preorder_iter()\<close> on \<open>None\<close> raises \<open>AttributeError\<close>.
\<close>

definition phylum_step ::
  "env \<Rightarrow> (nat \<Rightarrow> nat) \<Rightarrow> nat \<Rightarrow> taxonomy \<Rightarrow> nat \<Rightarrow>
   world \<times> (string \<times> rel_dists) list \<times> node_dists \<Rightarrow> string \<Rightarrow>
   (error + world \<times> (string \<times> rel_dists) list \<times> node_dists) option" where
  "phylum_step E rnd fuel taxonomy tree st p =
     (case st of (w, phylum_rel_dists, rel_node_dists) \<Rightarrow>
        (case root_with_outgroup E rnd fuel w tree taxonomy p of
           None \<Rightarrow> None
         | Some (Inl e) \<Rightarrow> Some (Inl e)
         | Some (Inr (w1, cur_tree)) \<Rightarrow>
             (let rel_dists = strip_outgroup p (taxonomy_children E p taxonomy)
                                (rel_dist_to_named_clades E (objs w1 cur_tree));
                  phylum_rel_dists' = AList.update (phylum_name p) rel_dists phylum_rel_dists;
                  w2 = w1\<lparr>objs := (objs w1)(cur_tree := decorate_rel_dist E (objs w1 cur_tree))\<rparr>
              in case ingroup_subtree E p (objs w2 cur_tree) of
                   None \<Rightarrow> Some (Inl AttributeError)
                 | Some c \<Rightarrow>
                     (case record_rel_dists (preorder_node_iter c) rel_node_dists of
                        Inl e \<Rightarrow> Some (Inl e)
                      | Inr rel_node_dists' \<Rightarrow>
                          Some (Inr (w2, phylum_rel_dists', rel_node_dists'))))))"

fun phyla_loop ::
  "env \<Rightarrow> (nat \<Rightarrow> nat) \<Rightarrow> nat \<Rightarrow> taxonomy \<Rightarrow> nat \<Rightarrow> string list \<Rightarrow>
   world \<times> (string \<times> rel_dists) list \<times> node_dists \<Rightarrow>
   (error + world \<times> (string \<times> rel_dists) list \<times> node_dists) option" where
  "phyla_loop E rnd fuel taxonomy tree [] st = Some (Inr st)"
| "phyla_loop E rnd fuel taxonomy tree (p # ps) st =
     (case phylum_step E rnd fuel taxonomy tree st p of
        None \<Rightarrow> None
      | Some (Inl e) \<Rightarrow> Some (Inl e)
      | Some (Inr st') \<Rightarrow> phyla_loop E rnd fuel taxonomy tree ps st')"

text \<open>
  \<open>median_rd_over_phyla\<close> (lines 710-783). \<open>sys.exit(-1)\<close> raises \<open>SystemExit\<close>. An absent or
  empty taxonomy is read from the tree.
\<close>

definition usable_phyla :: "env \<Rightarrow> node \<Rightarrow> string set \<Rightarrow> string list" where
  "usable_phyla E t taxa_for_dist_inference =
     filter (\<lambda>p. p \<in> taxa_for_dist_inference) (get_phyla_lineages E t)"

definition median_rd_over_phyla ::
  "env \<Rightarrow> (nat \<Rightarrow> nat) \<Rightarrow> nat \<Rightarrow> world \<Rightarrow> nat \<Rightarrow> string set \<Rightarrow> taxonomy option \<Rightarrow>
   (error + world \<times> (string \<times> rel_dists) list \<times> node_dists) option" where
  "median_rd_over_phyla E rnd fuel w tree taxa_for_dist_inference taxonomy =
     (let taxonomy' = (case taxonomy of
                         None \<Rightarrow> read_from_tree E (objs w tree)
                       | Some tx \<Rightarrow> if tx = [] then read_from_tree E (objs w tree) else tx);
          phyla = usable_phyla E (objs w tree) taxa_for_dist_inference
      in if length phyla < 2 then Some (Inl (SystemExit (- 1)))
         else phyla_loop E rnd fuel taxonomy' tree phyla
                (w\<lparr>objs := (objs w)(tree := assign_ids 0 (objs w tree))\<rparr>, [], []))"

section \<open>The consensus over the rootings in \<open>run\<close>\<close>

text \<open>
  The median of a list of floats: numpy gives \<open>nan\<close> when one of them is \<open>nan\<close>.
\<close>

definition np_median_nan :: "pyfloat list \<Rightarrow> pyfloat" where
  "np_median_nan vs = (case those vs of None \<Rightarrow> None | Some xs \<Rightarrow> np_median xs)"

text \<open>
  Lines 1016-1022 of \<open>run\<close>: the seed node gets \<open>rel_dist = 0.0\<close>; every other node gets
  the median of the values recorded under its id, and as edge length the difference
  to the \<open>rel_dist\<close> of its parent. A node without \<open>id\<close> raises \<open>AttributeError\<close>.
\<close>

fun median_node :: "node_dists \<Rightarrow> pyfloat \<Rightarrow> node \<Rightarrow> node" where
  "median_node rel_node_dists parent_rd (Node i l t e r cs) =
     (let rd = np_median_nan (case i of None \<Rightarrow> [] | Some k \<Rightarrow> dists_of rel_node_dists k)
      in Node i l t (Some (fsub rd parent_rd)) (Some rd) (map (median_node rel_node_dists rd) cs))"

definition set_median_rel_dists :: "node_dists \<Rightarrow> node \<Rightarrow> error + node" where
  "set_median_rel_dists rel_node_dists t =
     (if None \<in> set (map nid (tl (preorder_node_iter t))) then Inl AttributeError
      else Inr (Node (nid t) (nlabel t) (taxon_label t) (edge_length t) (Some (Some 0))
                  (map (median_node rel_node_dists (Some 0)) (child_nodes t))))"

text \<open>
  The branch of \<open>run\<close> without a fixed root (lines 994-1069), as far as the consensus
  goes: the tables of the rootings, the tree with the consensus values, and the
  lines of the summary table.
\<close>

definition run_consensus ::
  "env \<Rightarrow> (nat \<Rightarrow> nat) \<Rightarrow> nat \<Rightarrow> world \<Rightarrow> nat \<Rightarrow> string set \<Rightarrow>
   (error + world \<times> (string \<times> rel_dists) list \<times> outlier_row list) option" where
  "run_consensus E rnd fuel w tree taxa_for_dist_inference =
     (case median_rd_over_phyla E rnd fuel w tree taxa_for_dist_inference None of
        None \<Rightarrow> None
      | Some (Inl e) \<Rightarrow> Some (Inl e)
      | Some (Inr (w1, phylum_rel_dists, rel_node_dists)) \<Rightarrow>
          (case set_median_rel_dists rel_node_dists (objs w1 tree) of
             Inl e \<Rightarrow> Some (Inl e)
           | Inr t \<Rightarrow>
               Some (Inr (w1\<lparr>objs := (objs w1)(tree := t)\<rparr>, phylum_rel_dists,
                          median_summary_outlier_file phylum_rel_dists taxa_for_dist_inference))))"


section \<open>An instance of the parameters for the examples\<close>

text \<open>
  A small tree library on the node type, used where a statement is tried on a
  concrete input: rerooting on the edge above a node, with nodes of a single child
  merged into that child as dendropy does by default, the MRCA of a set of taxa, the
  phyla and the taxonomy read from the labels of the tree, and a divergence
  calculator. The theorems about the program hold for every instance of the
  parameters; this one gives them inputs to run on.
\<close>

definition set_edge :: "pyfloat option \<Rightarrow> node \<Rightarrow> node" where
  "set_edge e n = Node (nid n) (nlabel n) (taxon_label n) e (rel_dist n) (child_nodes n)"

definition edge_len :: "node \<Rightarrow> real" where
  "edge_len n = (case edge_length n of Some (Some x) \<Rightarrow> x | _ \<Rightarrow> 0)"

fun path_to :: "node \<Rightarrow> node \<Rightarrow> node list" where
  "path_to n (Node i l t e r cs) =
     (if Node i l t e r cs = n then [n]
      else (case concat (map (\<lambda>c. case path_to n c of [] \<Rightarrow> [] | q # qs \<Rightarrow> [q # qs]) cs) of
              [] \<Rightarrow> []
            | q # qs \<Rightarrow> Node i l t e r cs # q))"

fun upward :: "node \<Rightarrow> node list \<Rightarrow> node list" where
  "upward v [] = []"
| "upward v (p # anc) =
     [Node (nid p) (nlabel p) (taxon_label p) (edge_length v) (rel_dist p)
        (removeAll v (child_nodes p) @ upward p anc)]"

fun suppress_unifurcations :: "node \<Rightarrow> node" where
  "suppress_unifurcations (Node i l t e r cs) =
     (case map suppress_unifurcations cs of
        [c] \<Rightarrow> set_edge (Some (Some (edge_len (Node i l t e r cs) + edge_len c))) c
      | cs' \<Rightarrow> Node i l t e r cs')"

definition example_reroot :: "node \<Rightarrow> node \<Rightarrow> pyfloat \<Rightarrow> pyfloat \<Rightarrow> node" where
  "example_reroot t n length1 length2 =
     (case rev (path_to n t) of
        [] \<Rightarrow> t
      | v # anc \<Rightarrow>
          if anc = [] then t
          else Node None None None None None
                 (set_edge (Some length2) n #
                  map (\<lambda>c. suppress_unifurcations (set_edge (Some length1) c)) (upward n anc)))"

definition covers :: "string list \<Rightarrow> node \<Rightarrow> bool" where
  "covers taxa n = list_all (\<lambda>x. Some x \<in> set (map taxon_label (leaf_node_iter n))) taxa"

fun example_mrca :: "string list \<Rightarrow> node \<Rightarrow> node" where
  "example_mrca taxa (Node i l t e r cs) =
     (case concat (map (\<lambda>c. if covers taxa c then [example_mrca taxa c] else []) cs) of
        [] \<Rightarrow> Node i l t e r cs
      | m # ms \<Rightarrow> m)"

text \<open>
  Modelled from the spec: the divergence calculator \<open>RelativeDistance\<close> of the module
  \<open>phylorank.rel_dist\<close>, which is not among the sources. Section 4.3: the RED of the root
  is 0, and \<open>RED(n) = RED(parent) + a / (a + b) * (1 - RED(parent))\<close> for every other node,
  where \<open>a\<close> is the edge length of \<open>n\<close> and \<open>b\<close> the mean distance from \<open>n\<close> to the
  leaves below it (the value of the parent when \<open>a + b = 0\<close>); the named clades are the
  labelled internal nodes, by rank.
\<close>

fun leaf_dists :: "node \<Rightarrow> real list" where
  "leaf_dists (Node i l t e r cs) =
     (if cs = [] then [0] else concat (map (\<lambda>c. map ((+) (edge_len c)) (leaf_dists c)) cs))"

fun red_node :: "real \<Rightarrow> node \<Rightarrow> node" where
  "red_node parent_rd (Node i l t e r cs) =
     (let a = edge_len (Node i l t e r cs);
          b = sum_list (leaf_dists (Node i l t e r cs)) / real (length (leaf_dists (Node i l t e r cs)));
          rd = (if a + b = 0 then parent_rd else parent_rd + a / (a + b) * (1 - parent_rd))
      in Node i l t e (Some (Some rd)) (map (red_node rd) cs))"

definition example_decorate :: "node \<Rightarrow> node" where
  "example_decorate t =
     Node (nid t) (nlabel t) (taxon_label t) (edge_length t) (Some (Some 0))
       (map (red_node 0) (child_nodes t))"

definition rank_index :: "string \<Rightarrow> nat" where
  "rank_index name =
     (case map_of (zip ''dpcofgs'' [0, 1, 2, 3, 4, 5, 6]) (hd name) of None \<Rightarrow> 7 | Some k \<Rightarrow> k)"

definition example_named_clades :: "node \<Rightarrow> rel_dists" where
  "example_named_clades t =
     foldl (\<lambda>acc n.
        case nlabel n of
          None \<Rightarrow> acc
        | Some name \<Rightarrow>
            (case rel_dist n of
               Some (Some rd) \<Rightarrow>
                 if name = [] \<or> child_nodes n = [] then acc
                 else AList.update (rank_index name)
                        (AList.update name rd
                           (case map_of acc (rank_index name) of None \<Rightarrow> [] | Some d \<Rightarrow> d)) acc
             | _ \<Rightarrow> acc))
       [] (preorder_node_iter (example_decorate t))"

definition example_phyla :: "node \<Rightarrow> string list" where
  "example_phyla t =
     concat (map (\<lambda>n. case nlabel n of None \<Rightarrow> []
                       | Some name \<Rightarrow> if take 3 name = ''p__'' then [name] else [])
                 (preorder_node_iter t))"

definition example_children :: "string \<Rightarrow> taxonomy \<Rightarrow> string list" where
  "example_children p taxonomy =
     remdups (concat (map (\<lambda>(g, taxa). tl (dropWhile (\<lambda>x. x \<noteq> p) taxa)) taxonomy))"

definition example_read_from_tree :: "node \<Rightarrow> taxonomy" where
  "example_read_from_tree t =
     concat (map (\<lambda>p. case taxon_label (last p) of
                         None \<Rightarrow> []
                       | Some g \<Rightarrow>
                           [(g, concat (map (\<lambda>n. case nlabel n of None \<Rightarrow> [] | Some name \<Rightarrow> [name])
                                            (butlast p)))])
                 (leaf_paths t))"

definition example_env :: env where
  "example_env =
     \<lparr>reroot_at_edge = example_reroot,
      mrca = (\<lambda>t taxa. example_mrca taxa t),
      rel_dist_to_named_clades = example_named_clades,
      decorate_rel_dist = example_decorate,
      get_phyla_lineages = example_phyla,
      parse_label = (\<lambda>l. (None, l, None)),
      taxonomy_children = example_children,
      read_from_tree = example_read_from_tree\<rparr>"

definition example_leaf :: "string \<Rightarrow> real \<Rightarrow> node" where
  "example_leaf g x = Node None None (Some g) (Some (Some x)) None []"

definition example_clade :: "string option \<Rightarrow> real \<Rightarrow> node list \<Rightarrow> node" where
  "example_clade name x cs = Node None name None (Some (Some x)) None cs"

definition example_tree :: node where
  "example_tree =
     Node None None None None None
       [example_clade (Some ''p__A'') 1 [example_leaf ''g1'' 1, example_leaf ''g2'' 1],
        example_clade (Some ''p__B'') 2 [example_clade (Some ''c__X'') 1 [example_leaf ''g3'' 1, example_leaf ''g4'' 1], example_leaf ''g5'' 3]]"

definition example_taxonomy :: taxonomy where
  "example_taxonomy =
     [(''g1'', [''d__D'', ''p__A'']), (''g2'', [''d__D'', ''p__A'']),
      (''g3'', [''d__D'', ''p__B'', ''c__X'']), (''g4'', [''d__D'', ''p__B'', ''c__X'']),
      (''g5'', [''d__D'', ''p__B''])]"

definition example_world :: world where
  "example_world = \<lparr>objs = (\<lambda>a. example_tree), nxt = 1, draws = 0\<rparr>"

definition rooted_on_A :: node where
  "rooted_on_A =
     Node None None None None None
       [example_clade (Some ''p__A'') (3 / 2) [example_leaf ''g1'' 1, example_leaf ''g2'' 1],
        example_clade (Some ''p__B'') (3 / 2)
          [example_leaf ''g5'' 3,
           example_clade (Some ''c__X'') 1 [example_leaf ''g4'' 1, example_leaf ''g3'' 1]]]"



text \<open>
  A tree with two phyla, the name of the first being the beginning of the name of the
  second, and the tree rooted on the first.
\<close>

definition nested_names_tree :: node where
  "nested_names_tree =
     Node None None None None None
       [example_clade (Some ''p__A'') 1 [example_leaf ''g1'' 1, example_leaf ''g2'' 1],
        example_clade (Some ''p__AB'') 1 [example_leaf ''g3'' 1, example_leaf ''g4'' 1]]"

definition nested_names_taxonomy :: taxonomy where
  "nested_names_taxonomy =
     [(''g1'', [''d__D'', ''p__A'']), (''g2'', [''d__D'', ''p__A'']),
      (''g3'', [''d__D'', ''p__AB'']), (''g4'', [''d__D'', ''p__AB''])]"

definition nested_names_world :: world where
  "nested_names_world = \<lparr>objs = (\<lambda>a. nested_names_tree), nxt = 1, draws = 0\<rparr>"

definition nested_names_rooted :: node where
  "nested_names_rooted =
     Node None None None None None
       [example_clade (Some ''p__A'') 1 [example_leaf ''g1'' 1, example_leaf ''g2'' 1],
        example_clade (Some ''p__AB'') 1 [example_leaf ''g4'' 1, example_leaf ''g3'' 1]]"


text \<open>
  A tree with the phyla \<open>p__A\<close> and \<open>p__a\<close>, whose names differ in case only, and a
  third phylum \<open>p__B\<close> with the class \<open>c__Y\<close>; and the tree library that lists the phyla
  in the other order.
\<close>

definition case_names_tree :: node where
  "case_names_tree =
     Node None None None None None
       [example_clade (Some ''p__A'') 1 [example_leaf ''g1'' 1, example_leaf ''g2'' 1],
        example_clade (Some ''p__a'') 2 [example_leaf ''g3'' 1, example_leaf ''g4'' 1],
        example_clade (Some ''p__B'') 1
          [example_clade (Some ''c__Y'') 1 [example_leaf ''g5'' 1, example_leaf ''g6'' 1],
           example_leaf ''g7'' 3]]"

definition case_names_world :: world where
  "case_names_world = \<lparr>objs = (\<lambda>a. case_names_tree), nxt = 1, draws = 0\<rparr>"

definition reversed_env :: env where
  "reversed_env = example_env\<lparr>get_phyla_lineages := (\<lambda>t. rev (example_phyla t))\<rparr>"

section \<open>Notions for the order of the rootings\<close>

text \<open>The values a list of nodes contributes to the record of the node id \<open>k\<close>.\<close>

definition observed :: "node list \<Rightarrow> nat \<Rightarrow> pyfloat list" where
  "observed ns k =
     concat (map (\<lambda>n. if nid n = Some k then (case rel_dist n of None \<Rightarrow> [] | Some v \<Rightarrow> [v]) else [])
                 ns)"

text \<open>
  The rooting on a phylum is fixed when it does not depend on the store and on the
  numbers drawn: on the tree \<open>t0\<close> it always gives the tables \<open>tables\<close> and visits the
  nodes \<open>ns\<close> of the ingroup.
\<close>

definition rooting_fixed ::
  "env \<Rightarrow> (nat \<Rightarrow> nat) \<Rightarrow> nat \<Rightarrow> taxonomy \<Rightarrow> nat \<Rightarrow> node \<Rightarrow> string \<Rightarrow> rel_dists \<Rightarrow> node list \<Rightarrow> bool" where
  "rooting_fixed E rnd fuel taxonomy tree t0 p tables ns =
     (\<forall>w a b. objs w tree = t0 \<and> tree < nxt w \<longrightarrow>
        (\<exists>w'. phylum_step E rnd fuel taxonomy tree (w, a, b) p =
           (case record_rel_dists ns b of
              Inl e \<Rightarrow> Some (Inl e)
            | Inr b' \<Rightarrow> Some (Inr (w', AList.update (phylum_name p) tables a, b')))))"

text \<open>The list \<open>medians_for_taxa[rank][taxon]\<close>, empty for a missing entry.\<close>

definition taxon_dists :: "taxa_dists \<Rightarrow> nat \<Rightarrow> string \<Rightarrow> real list" where
  "taxon_dists m rank taxon =
     (case map_of m rank of
        None \<Rightarrow> []
      | Some d \<Rightarrow> (case map_of d taxon of None \<Rightarrow> [] | Some ds \<Rightarrow> ds))"

text \<open>The values the tables of one rooting hold for a taxon at a rank.\<close>

definition table_dists :: "rel_dists \<Rightarrow> nat \<Rightarrow> string \<Rightarrow> real list" where
  "table_dists rds rank taxon =
     concat (map (\<lambda>(r, d). if r = rank then map snd (filter (\<lambda>(t, v). t = taxon) d) else []) rds)"

text \<open>
  The example tree with its ids, and what the rootings of the example on \<open>p__A\<close> and on
  \<open>p__B\<close> give: the tables, and the ingroup subtrees whose nodes are visited.
\<close>

definition example_ids_world :: world where
  "example_ids_world = \<lparr>objs = (\<lambda>a. assign_ids 0 example_tree), nxt = 1, draws = 0\<rparr>"

definition example_tables :: "string \<Rightarrow> rel_dists" where
  "example_tables p =
     (if p = ''p__A'' then [(1, [(''p__B'', 9 / 23)]), (2, [(''c__X'', 16 / 23)])]
      else [(1, [(''p__A'', 3 / 5)]), (2, [])])"

definition example_ingroup :: "string \<Rightarrow> node list" where
  "example_ingroup p =
     (if p = ''p__A''
      then preorder_node_iter
             (Node (Some 4) (Some ''p__B'') None (Some (Some (3 / 2))) (Some (Some (9 / 23)))
                [Node (Some 8) None (Some ''g5'') (Some (Some 3)) (Some (Some 1)) [],
                 Node (Some 5) (Some ''c__X'') None (Some (Some 1)) (Some (Some (16 / 23)))
                   [Node (Some 7) None (Some ''g4'') (Some (Some 1)) (Some (Some 1)) [],
                    Node (Some 6) None (Some ''g3'') (Some (Some 1)) (Some (Some 1)) []]])
      else preorder_node_iter
             (Node (Some 1) (Some ''p__A'') None (Some (Some (3 / 2))) (Some (Some (3 / 5)))
                [Node (Some 3) None (Some ''g2'') (Some (Some 1)) (Some (Some 1)) [],
                 Node (Some 2) None (Some ''g1'') (Some (Some 1)) (Some (Some 1)) []]))"

section \<open>Properties of the classifier\<close>







subsection \<open>The classification bands\<close>

text \<open>
  Claim C1. The label of a clade is the banding function of
  \<open>delta = clade RED - rank median\<close>, read in the order of the chain: below \<open>-0.2\<close> very
  overclassified, else below \<open>-0.1\<close> overclassified, else above \<open>0.2\<close> very
  underclassified, else above \<open>0.1\<close> underclassified, else OK. Each label is given on
  exactly one interval, the five intervals cover the line and do not overlap:
  \<open>-0.2\<close> itself is overclassified, \<open>-0.1\<close> and \<open>0.1\<close> are OK, \<open>0.2\<close> is
  underclassified. Both tables use this function for a clade of a rank whose median is
  defined.
\<close>


theorem classification_bands:
  "(classify delta = Very_overclassified \<longleftrightarrow> delta < - 0.2) \<and>
   (classify delta = Overclassified \<longleftrightarrow> - 0.2 \<le> delta \<and> delta < - 0.1) \<and>
   (classify delta = OK \<longleftrightarrow> - 0.1 \<le> delta \<and> delta \<le> 0.1) \<and>
   (classify delta = Underclassified \<longleftrightarrow> 0.1 < delta \<and> delta \<le> 0.2) \<and>
   (classify delta = Very_underclassified \<longleftrightarrow> 0.2 < delta) \<and>
   (map_of medians rank = Some m \<longrightarrow>
      classification (median_outlier_row medians rank (clade, x)) = classify (x - m)) \<and>
   (np_median dists = Some taxon_median \<longrightarrow>
      classification (median_summary_row median_for_rank m (clade, dists)) = classify (taxon_median - m))"
  by (simp add: classify_def median_outlier_row_def median_summary_row_def Let_def)

theorem classification_bands_witness:
  "map_of [(1::nat, 0.5::real)] 1 = Some 0.5 \<and> np_median [0.3, 0.9] = Some 0.6 \<and>
   classification (median_outlier_row [(1, 0.5)] 1 (''p__A'', 0.75)) = Very_underclassified \<and>
   classification (median_summary_row [(1, 0.5)] 0.5 (''p__A'', [0.3, 0.9])) = OK \<and>
   classify (- 0.2) = Overclassified \<and> classify (- 0.1) = OK \<and>
   classify 0.1 = OK \<and> classify 0.2 = Underclassified"
proof -
  have h1: "map_of [(1::nat, 0.5::real)] 1 = Some 0.5" by simp
  have h2: "np_median [0.3, 0.9] = Some 0.6" by (simp add: np_median_def)
  have c1: "classify (0.75 - 0.5) = Very_underclassified" by (simp add: classify_def)
  have c2: "classify (0.6 - 0.5) = OK" by (simp add: classify_def)
  note b = classification_bands [where medians = "[(1, 0.5)]" and rank = 1 and m = "0.5"
      and clade = "''p__A''" and x = "0.75" and dists = "[0.3, 0.9]" and taxon_median = "0.6"
      and median_for_rank = "[(1, 0.5)]"]
  have "classification (median_outlier_row [(1, 0.5)] 1 (''p__A'', 0.75)) = Very_underclassified"
    using b [where delta = 0] h1 c1 by simp
  moreover have "classification (median_summary_row [(1, 0.5)] 0.5 (''p__A'', [0.3, 0.9])) = OK"
    using b [where delta = 0] h2 c2 by simp
  moreover have "classify (- 0.2) = Overclassified" using b [where delta = "- 0.2"] by simp
  moreover have "classify (- 0.1) = OK" using b [where delta = "- 0.1"] by simp
  moreover have "classify 0.1 = OK" using b [where delta = "0.1"] by simp
  moreover have "classify 0.2 = Underclassified" using b [where delta = "0.2"] by simp
  ultimately show ?thesis using h1 h2 by simp
qed


subsection \<open>Ranks without a taxon usable for inference\<close>


lemma sort_key_entry_index:
  "e \<in> set xs \<Longrightarrow> \<exists>i < length xs. sort_key f xs ! i = e"
  by (metis in_set_conv_nth length_sort set_sort)









section \<open>Properties of rerooting\<close>

lemmas example_defs = example_env_def example_tree_def example_taxonomy_def example_world_def
  example_leaf_def example_clade_def example_reroot_def set_edge_def edge_len_def covers_def
  example_decorate_def example_named_clades_def rank_index_def example_phyla_def
  example_children_def example_read_from_tree_def

lemmas rooting_defs = root_with_outgroup_def clone_def outgroup_in_tree_def ingroup_in_tree_def
  in_outgroup_def attempt_def half_def Let_def

lemma attempt_frame:
  "attempt E rnd tx ot og r w = Inr (w', m, c) \<Longrightarrow>
   nxt w' = nxt w \<and> (\<forall>q. q \<noteq> r \<longrightarrow> objs w' q = objs w q)"
  by (auto simp: attempt_def Let_def split: if_splits option.splits)

lemma reroot_until_frame:
  "reroot_until E rnd tx ot og r n_leaves fuel w = Some (Inr (w', m, c)) \<Longrightarrow>
   nxt w' = nxt w \<and> (\<forall>q. q \<noteq> r \<longrightarrow> objs w' q = objs w q)"
proof (induction fuel arbitrary: w)
  case 0
  then show ?case by simp
next
  case (Suc fuel)
  show ?case
  proof (cases "attempt E rnd tx ot og r w")
    case (Inl e)
    with Suc.prems show ?thesis by simp
  next
    case (Inr res)
    obtain w1 m1 c1 where res: "res = (w1, m1, c1)" by (cases res) auto
    note fr = attempt_frame [OF Inr [unfolded res]]
    show ?thesis
    proof (cases "c1 \<noteq> n_leaves")
      case True
      with Suc.prems Inr res fr show ?thesis by simp
    next
      case False
      with Suc.prems Inr res
      have "reroot_until E rnd tx ot og r n_leaves fuel w1 = Some (Inr (w', m, c))" by simp
      from Suc.IH [OF this] fr show ?thesis by simp
    qed
  qed
qed

lemma reroot_until_errors:
  "reroot_until E rnd tx ot og r n_leaves fuel w = Some (Inl e) \<Longrightarrow> e = ValueError \<or> e = TypeError"
proof (induction fuel arbitrary: w)
  case 0
  then show ?case by simp
next
  case (Suc fuel)
  show ?case
  proof (cases "attempt E rnd tx ot og r w")
    case (Inl e')
    with Suc.prems have "e' = e" by simp
    with Inl show ?thesis
      by (auto simp: attempt_def Let_def split: if_splits option.splits)
  next
    case (Inr res)
    obtain w1 m1 c1 where res: "res = (w1, m1, c1)" by (cases res) auto
    with Suc.prems Inr have "reroot_until E rnd tx ot og r n_leaves fuel w1 = Some (Inl e)"
      by (simp split: if_splits)
    then show ?thesis by (rule Suc.IH)
  qed
qed


subsection \<open>The input tree is left as it is\<close>

text \<open>
  Claim C9. \<open>root_with_outgroup\<close> works on a copy: a call that returns gives a tree
  object that did not exist before (so it is not the input tree), and the input tree
  and every other tree object that existed before the call hold the value they held
  before it; the same input tree can be given to the next rooting.
\<close>

theorem root_with_outgroup_deep_copy:
  assumes "root_with_outgroup E rnd fuel w input_tree taxonomy outgroup_taxa = Some (Inr (w', new_tree))"
    and "input_tree < nxt w"
  shows "new_tree = nxt w \<and> new_tree \<noteq> input_tree \<and>
         objs w' input_tree = objs w input_tree \<and>
         (\<forall>q < nxt w. objs w' q = objs w q)"
proof -
  let ?w1 = "w\<lparr>objs := (objs w)(nxt w := objs w input_tree), nxt := Suc (nxt w)\<rparr>"
  let ?og = "outgroup_in_tree taxonomy outgroup_taxa (objs ?w1 (nxt w))"
  let ?n = "length (leaf_node_iter (objs ?w1 (nxt w)))"
  from assms(1) obtain w2 m c where
    loop: "reroot_until E rnd taxonomy outgroup_taxa ?og (nxt w) ?n fuel ?w1 = Some (Inr (w2, m, c))"
    and nt: "new_tree = nxt w"
    and w': "w' = w2 \<or> (\<exists>t. w' = w2\<lparr>objs := (objs w2)(nxt w := t)\<rparr>)"
    by (auto simp: root_with_outgroup_def clone_def Let_def
             split: if_splits option.splits sum.splits prod.splits)
  from reroot_until_frame [OF loop]
  have fr: "\<forall>q. q \<noteq> nxt w \<longrightarrow> objs w2 q = objs ?w1 q" by simp
  have "\<forall>q < nxt w. objs w' q = objs w q"
    using fr w' by auto
  with nt assms(2) show ?thesis by auto
qed


theorem root_with_outgroup_deep_copy_witness:
  "root_with_outgroup example_env (\<lambda>k. 0) 1 example_world 0 example_taxonomy ''p__A'' =
     Some (Inr (\<lparr>objs = (\<lambda>a. example_tree)(1 := rooted_on_A), nxt = 2, draws = 1\<rparr>, 1)) \<and>
   (0::nat) < nxt example_world \<and>
   objs \<lparr>objs = (\<lambda>a. example_tree)(1 := rooted_on_A), nxt = 2, draws = 1\<rparr> 0 = example_tree \<and>
   rooted_on_A \<noteq> example_tree"
proof -
  have r: "root_with_outgroup example_env (\<lambda>k. 0) 1 example_world 0 example_taxonomy ''p__A'' =
     Some (Inr (\<lparr>objs = (\<lambda>a. example_tree)(1 := rooted_on_A), nxt = 2, draws = 1\<rparr>, 1))"
    by (simp add: rooting_defs example_defs rooted_on_A_def)
  have n: "(0::nat) < nxt example_world" by (simp add: example_world_def)
  have d: "rooted_on_A \<noteq> example_tree"
    by (simp add: rooted_on_A_def example_tree_def example_clade_def)
  from root_with_outgroup_deep_copy [OF r n] r n d show ?thesis
    by (simp add: example_world_def)
qed

subsection \<open>An outgroup without a leaf in the tree\<close>

text \<open>
  Claim C5. When no leaf of the tree is in the requested outgroup (every leaf having
  a taxon), \<open>root_with_outgroup\<close> ends with \<open>sys.exit(0)\<close> before the loop of trial
  rootings, whatever the tree library and the random source do; the exit is not
  caught by the loop over the phyla, which ends with it, so the whole run stops.
\<close>

theorem root_with_outgroup_empty_outgroup:
  assumes "None \<notin> set (map taxon_label (leaf_node_iter (objs w input_tree)))"
    and "\<forall>n \<in> set (leaf_node_iter (objs w input_tree)).
           \<forall>l. taxon_label n = Some l \<longrightarrow> \<not> in_outgroup taxonomy outgroup_taxa l"
  shows "root_with_outgroup E rnd fuel w input_tree taxonomy outgroup_taxa = Some (Inl (SystemExit 0)) \<and>
         phyla_loop E rnd fuel taxonomy input_tree (outgroup_taxa # ps)
           (w, phylum_rel_dists, rel_node_dists) = Some (Inl (SystemExit 0))"
proof -
  have "outgroup_in_tree taxonomy outgroup_taxa (objs w input_tree) = []"
    using assms(2) by (auto simp: outgroup_in_tree_def split: option.splits)
  with assms(1)
  have r: "root_with_outgroup E rnd fuel w input_tree taxonomy outgroup_taxa = Some (Inl (SystemExit 0))"
    by (simp add: root_with_outgroup_def clone_def Let_def)
  then have "phylum_step E rnd fuel taxonomy input_tree (w, phylum_rel_dists, rel_node_dists) outgroup_taxa
               = Some (Inl (SystemExit 0))"
    by (simp add: phylum_step_def)
  with r show ?thesis by simp
qed

theorem root_with_outgroup_empty_outgroup_witness:
  "None \<notin> set (map taxon_label (leaf_node_iter (objs example_world 0))) \<and>
   root_with_outgroup example_env (\<lambda>k. 0) 1 example_world 0 example_taxonomy ''p__Z''
     = Some (Inl (SystemExit 0)) \<and>
   phyla_loop example_env (\<lambda>k. 0) 1 example_taxonomy 0 [''p__Z'', ''p__A''] (example_world, [], [])
     = Some (Inl (SystemExit 0))"
proof -
  have a: "None \<notin> set (map taxon_label (leaf_node_iter (objs example_world 0)))"
    by (simp add: example_defs)
  have b: "\<forall>n \<in> set (leaf_node_iter (objs example_world 0)).
             \<forall>l. taxon_label n = Some l \<longrightarrow> \<not> in_outgroup example_taxonomy ''p__Z'' l"
    by (simp add: example_defs in_outgroup_def)
  from root_with_outgroup_empty_outgroup [OF a b, of example_env "\<lambda>k. 0" 1 "[''p__A'']" "[]" "[]"] a
  show ?thesis by simp
qed

subsection \<open>The loop of trial rootings\<close>










section \<open>Properties of the rescaled tree\<close>

lemma leaf_paths_not_Nil: "p \<in> set (leaf_paths n) \<Longrightarrow> p \<noteq> []"
  by (cases n) (auto split: if_splits)

lemma decorated_Node:
  "decorated (Node i l t e r cs) \<longleftrightarrow>
     (\<exists>x. r = Some (Some x)) \<and> (\<forall>c \<in> set cs. decorated c)"
  by (auto simp: decorated_def list_all_iff split: option.splits)

lemma decorated_rel_dist_set:
  "decorated t \<Longrightarrow> None \<notin> set (map rel_dist (preorder_node_iter t))"
  by (auto simp: decorated_def list_all_iff split: option.splits)

lemma scale_node_paths:
  "decorated n \<Longrightarrow> p \<in> set (leaf_paths (scale_node (Some x) n)) \<Longrightarrow>
   \<exists>y. rel_dist (last p) = Some (Some y) \<and> edge_sum p = Some (y - x)"
proof (induction n arbitrary: x p)
  case (Node i l t e r cs)
  from Node.prems(1) obtain rd where r: "r = Some (Some rd)"
    and dec: "\<forall>c \<in> set cs. decorated c"
    by (auto simp: decorated_Node)
  let ?n' = "Node i l t (Some (Some (rd - x))) r (map (scale_node (Some rd)) cs)"
  have sc: "scale_node (Some x) (Node i l t e r cs) = ?n'"
    using r by (simp add: fsub_def Let_def)
  show ?case
  proof (cases "cs = []")
    case True
    with Node.prems(2) sc have "p = [?n']" by simp
    with r show ?thesis by simp
  next
    case False
    with Node.prems(2) sc obtain c q where c: "c \<in> set cs"
      and q: "q \<in> set (leaf_paths (scale_node (Some rd) c))" and p: "p = ?n' # q"
      by auto
    from Node.IH [OF c _ q] dec c obtain y where y: "rel_dist (last q) = Some (Some y)"
      and s: "edge_sum q = Some (y - rd)" by blast
    have "q \<noteq> []" using q by (rule leaf_paths_not_Nil)
    with p y s show ?thesis by simp
  qed
qed

text \<open>
  Claim C2. When the decoration gives every node a RED value and the seed node the
  value 0, \<open>rd_fixed_root\<close> returns, and in the tree it leaves the edge lengths along
  the path from the seed node to any leaf (the seed node has no edge of its own) sum
  to the RED of that leaf. RED values are reals here, so the sum is exact.
\<close>

theorem rescaled_path_sum:
  assumes "decorated (decorate_rel_dist E (objs w tree))"
    and "rel_dist (decorate_rel_dist E (objs w tree)) = Some (Some 0)"
  shows "\<exists>w' rel_dists. rd_fixed_root E w tree = Inr (w', rel_dists) \<and>
           (\<forall>p \<in> set (leaf_paths (objs w' tree)).
              \<exists>y. rel_dist (last p) = Some (Some y) \<and> edge_sum (tl p) = Some y)"
proof -
  let ?t = "decorate_rel_dist E (objs w tree)"
  obtain i l t e r cs where t: "?t = Node i l t e r cs" by (cases ?t)
  from assms(2) t have r: "r = Some (Some 0)" by simp
  from assms(1) t have dec: "\<forall>c \<in> set cs. decorated c" by (simp add: decorated_Node)
  show ?thesis
  proof (cases "cs = []")
    case True
    with t r show ?thesis
      by (simp add: rd_fixed_root_def scale_tree_def Let_def)
  next
    case False
    let ?t' = "Node i l t e r (map (scale_node (Some 0)) cs)"
    have st: "scale_tree ?t = Inr ?t'"
      using False t r decorated_rel_dist_set [OF assms(1)] by (simp add: scale_tree_def)
    have "\<exists>y. rel_dist (last p) = Some (Some y) \<and> edge_sum (tl p) = Some y"
      if "p \<in> set (leaf_paths ?t')" for p
    proof -
      from that False obtain c q where c: "c \<in> set cs"
        and q: "q \<in> set (leaf_paths (scale_node (Some 0) c))" and p: "p = ?t' # q"
        by auto
      from scale_node_paths [OF _ q] dec c obtain y where "rel_dist (last q) = Some (Some y)"
        and "edge_sum q = Some (y - 0)" by blast
      moreover have "q \<noteq> []" using q by (rule leaf_paths_not_Nil)
      ultimately show ?thesis using p by simp
    qed
    with st show ?thesis
      by (simp add: rd_fixed_root_def Let_def)
  qed
qed

theorem rescaled_path_sum_witness:
  "decorated (decorate_rel_dist example_env (objs example_world 0)) \<and>
   rel_dist (decorate_rel_dist example_env (objs example_world 0)) = Some (Some 0) \<and>
   (case rd_fixed_root example_env example_world 0 of
      Inl e \<Rightarrow> False
    | Inr (w', rel_dists) \<Rightarrow>
        map (\<lambda>p. (map taxon_label p, edge_sum (tl p), rel_dist (last p))) (leaf_paths (objs w' 0)) =
          [([None, None, Some ''g1''], Some 1, Some (Some 1)),
           ([None, None, Some ''g2''], Some 1, Some (Some 1)),
           ([None, None, None, Some ''g3''], Some 1, Some (Some 1)),
           ([None, None, None, Some ''g4''], Some 1, Some (Some 1)),
           ([None, None, Some ''g5''], Some 1, Some (Some 1))])"
proof -
  have a: "decorated (decorate_rel_dist example_env (objs example_world 0))"
    by (simp add: decorated_def example_defs)
  have b: "rel_dist (decorate_rel_dist example_env (objs example_world 0)) = Some (Some 0)"
    by (simp add: example_defs)
  from rescaled_path_sum [OF a b] obtain w' rel_dists
    where "rd_fixed_root example_env example_world 0 = Inr (w', rel_dists)" by blast
  then show ?thesis using a b
    by (auto simp: rd_fixed_root_def scale_tree_def fsub_def Let_def example_defs)
qed

section \<open>Properties of the aggregation over the rootings\<close>

lemmas aggregation_defs = median_rd_over_phyla_def usable_phyla_def phylum_step_def strip_outgroup_def
  ingroup_subtree_def is_ingroup_def phylum_name_def lower_def lower_char_def dists_of_def

lemma root_with_outgroup_errors:
  "root_with_outgroup E rnd fuel w tree taxonomy p = Some (Inl e) \<Longrightarrow>
   e = AttributeError \<or> e = SystemExit 0 \<or> e = ValueError \<or> e = TypeError"
  using reroot_until_errors
  by (fastforce simp: root_with_outgroup_def clone_def Let_def
        split: if_splits option.splits sum.splits prod.splits)

lemma record_rel_dists_errors:
  "record_rel_dists ns acc = Inl e \<Longrightarrow> e = AttributeError"
  by (induction ns arbitrary: acc) (auto split: option.splits)

lemma phylum_step_errors:
  "phylum_step E rnd fuel taxonomy tree st p = Some (Inl e) \<Longrightarrow> e \<noteq> SystemExit (- 1)"
proof -
  assume a: "phylum_step E rnd fuel taxonomy tree st p = Some (Inl e)"
  obtain w prd nd where st: "st = (w, prd, nd)" by (cases st) auto
  show ?thesis
  proof (cases "root_with_outgroup E rnd fuel w tree taxonomy p")
    case None
    with a st show ?thesis by (simp add: phylum_step_def)
  next
    case (Some res)
    show ?thesis
    proof (cases res)
      case (Inl e')
      with a st Some have "e' = e" by (simp add: phylum_step_def)
      with root_with_outgroup_errors [of E rnd fuel w tree taxonomy p e] Some Inl
      show ?thesis by auto
    next
      case (Inr b)
      with a st Some have "e = AttributeError"
        by (auto simp: phylum_step_def Let_def
              split: prod.splits option.splits sum.splits dest: record_rel_dists_errors)
      then show ?thesis by simp
    qed
  qed
qed

lemma phyla_loop_errors:
  "phyla_loop E rnd fuel taxonomy tree ps st = Some (Inl e) \<Longrightarrow> e \<noteq> SystemExit (- 1)"
proof (induction ps arbitrary: st)
  case Nil
  then show ?case by simp
next
  case (Cons p ps)
  show ?case
  proof (cases "phylum_step E rnd fuel taxonomy tree st p")
    case None
    with Cons.prems show ?thesis by simp
  next
    case (Some res)
    show ?thesis
    proof (cases res)
      case (Inl e')
      with Cons.prems Some have "e' = e" by simp
      with Some Inl phylum_step_errors show ?thesis by blast
    next
      case (Inr st')
      with Cons.prems Some have "phyla_loop E rnd fuel taxonomy tree ps st' = Some (Inl e)" by simp
      then show ?thesis by (rule Cons.IH)
    qed
  qed
qed

subsection \<open>Fewer than two usable phyla\<close>

text \<open>
  Claim C3. \<open>median_rd_over_phyla\<close> ends with \<open>sys.exit(-1)\<close> if and only if fewer than
  two phyla of the tree are usable for inference; the exit is raised before any
  rooting, it ends \<open>run\<close> as well, and an error carries no table and no tree. With two
  or more usable phyla the loop over the phyla is entered with the first of them,
  and no later step ends with this exit.
\<close>

theorem insufficient_phyla:
  "(median_rd_over_phyla E rnd fuel w tree taxa_for_dist_inference taxonomy = Some (Inl (SystemExit (- 1)))
      \<longleftrightarrow> length (usable_phyla E (objs w tree) taxa_for_dist_inference) < 2) \<and>
   (run_consensus E rnd fuel w tree taxa_for_dist_inference = Some (Inl (SystemExit (- 1)))
      \<longleftrightarrow> length (usable_phyla E (objs w tree) taxa_for_dist_inference) < 2) \<and>
   (2 \<le> length (usable_phyla E (objs w tree) taxa_for_dist_inference) \<longrightarrow>
      (\<exists>p ps. usable_phyla E (objs w tree) taxa_for_dist_inference = p # ps \<and>
         median_rd_over_phyla E rnd fuel w tree taxa_for_dist_inference (Some (t # tx)) =
           (case phylum_step E rnd fuel (t # tx) tree
                   (w\<lparr>objs := (objs w)(tree := assign_ids 0 (objs w tree))\<rparr>, [], []) p of
              None \<Rightarrow> None
            | Some (Inl e) \<Rightarrow> Some (Inl e)
            | Some (Inr st) \<Rightarrow> phyla_loop E rnd fuel (t # tx) tree ps st)))"
proof -
  let ?n = "length (usable_phyla E (objs w tree) taxa_for_dist_inference)"
  have m: "median_rd_over_phyla E rnd fuel w tree taxa_for_dist_inference tx' = Some (Inl (SystemExit (- 1)))
             \<longleftrightarrow> ?n < 2" for tx'
  proof (cases "?n < 2")
    case True
    then show ?thesis by (simp add: median_rd_over_phyla_def Let_def)
  next
    case False
    then have "median_rd_over_phyla E rnd fuel w tree taxa_for_dist_inference tx' =
      phyla_loop E rnd fuel
        (case tx' of None \<Rightarrow> read_from_tree E (objs w tree)
         | Some tx \<Rightarrow> if tx = [] then read_from_tree E (objs w tree) else tx)
        tree (usable_phyla E (objs w tree) taxa_for_dist_inference)
        (w\<lparr>objs := (objs w)(tree := assign_ids 0 (objs w tree))\<rparr>, [], [])"
      by (simp add: median_rd_over_phyla_def Let_def)
    moreover have "phyla_loop E rnd fuel txx tree ps st \<noteq> Some (Inl (SystemExit (- 1)))" for txx ps st
      using phyla_loop_errors by blast
    ultimately show ?thesis using False by simp
  qed
  have r: "run_consensus E rnd fuel w tree taxa_for_dist_inference = Some (Inl (SystemExit (- 1)))
             \<longleftrightarrow> ?n < 2"
  proof
    assume "?n < 2"
    with m [of None] show "run_consensus E rnd fuel w tree taxa_for_dist_inference = Some (Inl (SystemExit (- 1)))"
      by (simp add: run_consensus_def)
  next
    assume a: "run_consensus E rnd fuel w tree taxa_for_dist_inference = Some (Inl (SystemExit (- 1)))"
    then have "median_rd_over_phyla E rnd fuel w tree taxa_for_dist_inference None
                 = Some (Inl (SystemExit (- 1)))"
      by (auto simp: run_consensus_def set_median_rel_dists_def
            split: option.splits sum.splits prod.splits if_splits)
    with m [of None] show "?n < 2" by simp
  qed
  have p: "2 \<le> ?n \<longrightarrow>
      (\<exists>p ps. usable_phyla E (objs w tree) taxa_for_dist_inference = p # ps \<and>
         median_rd_over_phyla E rnd fuel w tree taxa_for_dist_inference (Some (t # tx)) =
           (case phylum_step E rnd fuel (t # tx) tree
                   (w\<lparr>objs := (objs w)(tree := assign_ids 0 (objs w tree))\<rparr>, [], []) p of
              None \<Rightarrow> None
            | Some (Inl e) \<Rightarrow> Some (Inl e)
            | Some (Inr st) \<Rightarrow> phyla_loop E rnd fuel (t # tx) tree ps st))"
    by (cases "usable_phyla E (objs w tree) taxa_for_dist_inference")
       (auto simp: median_rd_over_phyla_def Let_def)
  from m [of taxonomy] r p show ?thesis by blast
qed

theorem insufficient_phyla_witness:
  "length (usable_phyla example_env (objs example_world 0) {''p__A''}) = 1 \<and>
   run_consensus example_env (\<lambda>k. 0) 1 example_world 0 {''p__A''} = Some (Inl (SystemExit (- 1))) \<and>
   length (usable_phyla example_env (objs example_world 0) {''p__A'', ''p__B''}) = 2 \<and>
   median_rd_over_phyla example_env (\<lambda>k. 0) 1 example_world 0 {''p__A'', ''p__B''} (Some example_taxonomy)
     \<noteq> Some (Inl (SystemExit (- 1)))"
proof -
  have a: "length (usable_phyla example_env (objs example_world 0) {''p__A''}) = 1"
    by (simp add: usable_phyla_def example_defs)
  have b: "length (usable_phyla example_env (objs example_world 0) {''p__A'', ''p__B''}) = 2"
    by (simp add: usable_phyla_def example_defs)
  have "run_consensus example_env (\<lambda>k. 0) 1 example_world 0 {''p__A''} = Some (Inl (SystemExit (- 1)))"
    using insufficient_phyla [of example_env "\<lambda>k. 0" 1 example_world 0 "{''p__A''}"] a by simp
  moreover
  have "median_rd_over_phyla example_env (\<lambda>k. 0) 1 example_world 0 {''p__A'', ''p__B''} (Some example_taxonomy)
          \<noteq> Some (Inl (SystemExit (- 1)))"
    using insufficient_phyla [of example_env "\<lambda>k. 0" 1 example_world 0 "{''p__A'', ''p__B''}"
                                 "Some example_taxonomy"] b
    by simp
  ultimately show ?thesis using a b by simp
qed

subsection \<open>The ingroup subtree\<close>

lemma take_eq_iff_prefix: "take (length p) s = p \<longleftrightarrow> (\<exists>b. s = p @ b)"
  by (metis append_eq_conv_conj append_take_drop_id)

lemma contains_iff: "contains p s \<longleftrightarrow> (\<exists>a b. s = a @ p @ b)"
proof (induction s)
  case Nil
  then show ?case by auto
next
  case (Cons c cs)
  have "(\<exists>a b. c # cs = a @ p @ b) \<longleftrightarrow> (\<exists>b. c # cs = p @ b) \<or> (\<exists>a b. cs = a @ p @ b)"
  proof
    assume "\<exists>a b. c # cs = a @ p @ b"
    then obtain a b where ab: "c # cs = a @ p @ b" by blast
    show "(\<exists>b. c # cs = p @ b) \<or> (\<exists>a b. cs = a @ p @ b)"
    proof (cases a)
      case Nil
      with ab show ?thesis by auto
    next
      case (Cons x a')
      with ab have "cs = a' @ p @ b" by simp
      then show ?thesis by blast
    qed
  next
    assume "(\<exists>b. c # cs = p @ b) \<or> (\<exists>a b. cs = a @ p @ b)"
    then show "\<exists>a b. c # cs = a @ p @ b"
    proof
      assume "\<exists>b. c # cs = p @ b"
      then obtain b where "c # cs = [] @ p @ b" by auto
      then show ?thesis by blast
    next
      assume "\<exists>a b. cs = a @ p @ b"
      then obtain a b where "c # cs = (c # a) @ p @ b" by auto
      then show ?thesis by blast
    qed
  qed
  with Cons.IH take_eq_iff_prefix [of p "c # cs"] show ?case by simp
qed

text \<open>
  Claim C10. The ingroup subtree of a rooting is the first child of the new seed node
  whose parsed label has no taxon name, an empty one, or one that does not hold the
  name of the outgroup phylum as a substring. Nothing makes sure that there is such a
  child: when the taxon name of every child of the seed node holds the name of the
  phylum, no subtree is chosen, the traversal is called on \<open>None\<close> and raises
  \<open>AttributeError\<close>, and the loop over the phyla ends with that error; the rooting
  is not skipped.
\<close>

theorem ingroup_subtree_missing:
  "(ingroup_subtree E p cur_tree = Some c \<longrightarrow>
      (\<exists>k < length (child_nodes cur_tree).
          child_nodes cur_tree ! k = c \<and> is_ingroup E p c \<and>
          (\<forall>j < k. \<not> is_ingroup E p (child_nodes cur_tree ! j)))) \<and>
   (is_ingroup E p c \<longleftrightarrow>
      (\<forall>name. fst (snd (parse_label E (nlabel c))) = Some name \<and> name \<noteq> []
          \<longrightarrow> \<not> (\<exists>a b. name = a @ p @ b))) \<and>
   (root_with_outgroup E rnd fuel w tree taxonomy p = Some (Inr (w1, cur)) \<and>
    (\<forall>c \<in> set (child_nodes (decorate_rel_dist E (objs w1 cur))). \<not> is_ingroup E p c) \<longrightarrow>
      phylum_step E rnd fuel taxonomy tree (w, phylum_rel_dists, rel_node_dists) p
        = Some (Inl AttributeError) \<and>
      phyla_loop E rnd fuel taxonomy tree (p # ps) (w, phylum_rel_dists, rel_node_dists)
        = Some (Inl AttributeError))"
proof -
  have a: "ingroup_subtree E p cur_tree = Some c \<longrightarrow>
      (\<exists>k < length (child_nodes cur_tree).
          child_nodes cur_tree ! k = c \<and> is_ingroup E p c \<and>
          (\<forall>j < k. \<not> is_ingroup E p (child_nodes cur_tree ! j)))"
    by (auto simp: ingroup_subtree_def find_Some_iff)
  have b: "is_ingroup E p c \<longleftrightarrow>
      (\<forall>name. fst (snd (parse_label E (nlabel c))) = Some name \<and> name \<noteq> []
          \<longrightarrow> \<not> (\<exists>a b. name = a @ p @ b))"
    by (auto simp: is_ingroup_def contains_iff split: option.splits)
  have c: "phylum_step E rnd fuel taxonomy tree (w, phylum_rel_dists, rel_node_dists) p
        = Some (Inl AttributeError) \<and>
      phyla_loop E rnd fuel taxonomy tree (p # ps) (w, phylum_rel_dists, rel_node_dists)
        = Some (Inl AttributeError)"
    if r: "root_with_outgroup E rnd fuel w tree taxonomy p = Some (Inr (w1, cur))"
      and n: "\<forall>c \<in> set (child_nodes (decorate_rel_dist E (objs w1 cur))). \<not> is_ingroup E p c"
  proof -
    from n have "ingroup_subtree E p (decorate_rel_dist E (objs w1 cur)) = None"
      by (simp add: ingroup_subtree_def find_None_iff)
    with r have "phylum_step E rnd fuel taxonomy tree (w, phylum_rel_dists, rel_node_dists) p
        = Some (Inl AttributeError)"
      by (simp add: phylum_step_def Let_def)
    then show ?thesis by simp
  qed
  from a b c show ?thesis by blast
qed

theorem ingroup_subtree_missing_witness:
  "root_with_outgroup example_env (\<lambda>k. 0) 1 nested_names_world 0 nested_names_taxonomy ''p__A''
     = Some (Inr (\<lparr>objs = (\<lambda>a. nested_names_tree)(1 := nested_names_rooted), nxt = 2, draws = 1\<rparr>, 1)) \<and>
   map nlabel (child_nodes nested_names_rooted) = [Some ''p__A'', Some ''p__AB''] \<and>
   phyla_loop example_env (\<lambda>k. 0) 1 nested_names_taxonomy 0 [''p__A'', ''p__AB''] (nested_names_world, [], [])
     = Some (Inl AttributeError) \<and>
   ingroup_subtree example_env ''p__AB'' nested_names_rooted
     = Some (example_clade (Some ''p__A'') 1 [example_leaf ''g1'' 1, example_leaf ''g2'' 1]) \<and>
   is_ingroup example_env ''p__AB''
     (example_clade (Some ''p__A'') 1 [example_leaf ''g1'' 1, example_leaf ''g2'' 1])"
proof -
  have r: "root_with_outgroup example_env (\<lambda>k. 0) 1 nested_names_world 0 nested_names_taxonomy ''p__A''
     = Some (Inr (\<lparr>objs = (\<lambda>a. nested_names_tree)(1 := nested_names_rooted), nxt = 2, draws = 1\<rparr>, 1))"
    by (simp add: rooting_defs example_defs nested_names_world_def nested_names_tree_def
          nested_names_taxonomy_def nested_names_rooted_def)
  have n: "\<forall>c \<in> set (child_nodes (decorate_rel_dist example_env
             (objs \<lparr>objs = (\<lambda>a. nested_names_tree)(1 := nested_names_rooted), nxt = 2, draws = 1\<rparr> 1))).
             \<not> is_ingroup example_env ''p__A'' c"
    by (simp add: is_ingroup_def example_defs nested_names_rooted_def)
  have l: "map nlabel (child_nodes nested_names_rooted) = [Some ''p__A'', Some ''p__AB'']"
    by (simp add: nested_names_rooted_def example_defs)
  have i: "ingroup_subtree example_env ''p__AB'' nested_names_rooted
     = Some (example_clade (Some ''p__A'') 1 [example_leaf ''g1'' 1, example_leaf ''g2'' 1])"
    by (simp add: ingroup_subtree_def is_ingroup_def example_defs nested_names_rooted_def)
  from ingroup_subtree_missing
         [of example_env "''p__A''" nested_names_rooted
             "example_clade (Some ''p__A'') 1 [example_leaf ''g1'' 1, example_leaf ''g2'' 1]"
             "\<lambda>k. 0" 1 nested_names_world 0 nested_names_taxonomy
             "\<lparr>objs = (\<lambda>a. nested_names_tree)(1 := nested_names_rooted), nxt = 2, draws = 1\<rparr>" 1
             "[]" "[]" "[''p__AB'']"]
       r n
  have "phyla_loop example_env (\<lambda>k. 0) 1 nested_names_taxonomy 0 [''p__A'', ''p__AB'']
          (nested_names_world, [], []) = Some (Inl AttributeError)"
    by blast
  moreover
  from ingroup_subtree_missing
         [of example_env "''p__AB''" nested_names_rooted
             "example_clade (Some ''p__A'') 1 [example_leaf ''g1'' 1, example_leaf ''g2'' 1]"]
       i
  have "is_ingroup example_env ''p__AB''
          (example_clade (Some ''p__A'') 1 [example_leaf ''g1'' 1, example_leaf ''g2'' 1])"
    by blast
  ultimately show ?thesis using r l i by simp
qed

section \<open>Properties of the consensus over the rootings\<close>

lemma root_with_outgroup_frame:
  assumes "root_with_outgroup E rnd fuel w input_tree taxonomy outgroup_taxa = Some (Inr (w', new_tree))"
  shows "new_tree = nxt w \<and> nxt w' = Suc (nxt w) \<and> (\<forall>q < nxt w. objs w' q = objs w q)"
proof -
  let ?w1 = "w\<lparr>objs := (objs w)(nxt w := objs w input_tree), nxt := Suc (nxt w)\<rparr>"
  let ?og = "outgroup_in_tree taxonomy outgroup_taxa (objs ?w1 (nxt w))"
  let ?n = "length (leaf_node_iter (objs ?w1 (nxt w)))"
  from assms obtain w2 m c where
    loop: "reroot_until E rnd taxonomy outgroup_taxa ?og (nxt w) ?n fuel ?w1 = Some (Inr (w2, m, c))"
    and nt: "new_tree = nxt w"
    and w': "w' = w2 \<or> (\<exists>t. w' = w2\<lparr>objs := (objs w2)(nxt w := t)\<rparr>)"
    by (auto simp: root_with_outgroup_def clone_def Let_def
             split: if_splits option.splits sum.splits prod.splits)
  from reroot_until_frame [OF loop]
  have fr: "\<forall>q. q \<noteq> nxt w \<longrightarrow> objs w2 q = objs ?w1 q" and nx: "nxt w2 = Suc (nxt w)" by simp_all
  have "\<forall>q < nxt w. objs w' q = objs w q"
    using fr w' by auto
  moreover have "nxt w' = Suc (nxt w)" using nx w' by auto
  ultimately show ?thesis using nt by simp
qed

lemma phylum_step_frame:
  assumes "phylum_step E rnd fuel taxonomy tree (w, a, b) p = Some (Inr (w', a', b'))"
    and "tree < nxt w"
  shows "objs w' tree = objs w tree \<and> tree < nxt w'"
proof -
  from assms(1) obtain w1 cur where
    r: "root_with_outgroup E rnd fuel w tree taxonomy p = Some (Inr (w1, cur))"
    and w': "w' = w1\<lparr>objs := (objs w1)(cur := decorate_rel_dist E (objs w1 cur))\<rparr>"
    by (auto simp: phylum_step_def Let_def split: option.splits sum.splits prod.splits)
  from root_with_outgroup_frame [OF r] assms(2)
  have "cur \<noteq> tree" and "objs w1 tree = objs w tree" and "tree < nxt w1" by auto
  with w' show ?thesis by simp
qed

lemma phyla_loop_frame:
  "phyla_loop E rnd fuel taxonomy tree ps (w, a, b) = Some (Inr (w', a', b')) \<Longrightarrow> tree < nxt w \<Longrightarrow>
   objs w' tree = objs w tree"
proof (induction ps arbitrary: w a b)
  case Nil
  then show ?case by simp
next
  case (Cons p ps)
  from Cons.prems(1) obtain w1 a1 b1 where
    s: "phylum_step E rnd fuel taxonomy tree (w, a, b) p = Some (Inr (w1, a1, b1))"
    and l: "phyla_loop E rnd fuel taxonomy tree ps (w1, a1, b1) = Some (Inr (w', a', b'))"
    by (auto split: option.splits sum.splits)
  from phylum_step_frame [OF s Cons.prems(2)]
  have "objs w1 tree = objs w tree" and "tree < nxt w1" by simp_all
  with Cons.IH [OF l] show ?case by simp
qed

lemma upt_shift: "[k ..< k + Suc m] = k # [Suc k ..< Suc k + m]"
  by (metis add_Suc add_Suc_right less_add_Suc1 upt_conv_Cons)

lemma assign_ids_preorder:
  "map nid (preorder_node_iter (assign_ids k n)) = map Some [k ..< k + length (preorder_node_iter n)]"
  "map nid (concat (map preorder_node_iter (assign_ids_list k ns)))
     = map Some [k ..< k + length (concat (map preorder_node_iter ns))]"
proof (induction k n and k ns rule: assign_ids_assign_ids_list.induct)
  case (1 k i l t e r cs)
  have "[k ..< k + Suc (length (concat (map preorder_node_iter cs)))]
          = k # [Suc k ..< Suc k + length (concat (map preorder_node_iter cs))]"
    by (rule upt_shift)
  with 1 show ?case by (simp del: upt_Suc)
next
  case (2 k)
  then show ?case by simp
next
  case (3 k c cs)
  have "[k ..< k + (length (preorder_node_iter c) + length (concat (map preorder_node_iter cs)))]
          = [k ..< k + length (preorder_node_iter c)]
            @ [k + length (preorder_node_iter c) ..<
               k + length (preorder_node_iter c) + length (concat (map preorder_node_iter cs))]"
    by (metis add.assoc upt_add_eq_append le_add1)
  with 3 show ?case by (simp del: upt_Suc)
qed

lemma median_node_preorder:
  "map (\<lambda>n. (nid n, rel_dist n)) (preorder_node_iter (median_node nd parent_rd n)) =
   map (\<lambda>n. (nid n, Some (np_median_nan (case nid n of None \<Rightarrow> [] | Some k \<Rightarrow> dists_of nd k))))
       (preorder_node_iter n)"
proof (induction n arbitrary: parent_rd)
  case (Node i l t e r cs)
  have "map (\<lambda>n. (nid n, rel_dist n)) (concat (map preorder_node_iter (map (median_node nd x) cs))) =
        map (\<lambda>n. (nid n, Some (np_median_nan (case nid n of None \<Rightarrow> [] | Some k \<Rightarrow> dists_of nd k))))
            (concat (map preorder_node_iter cs))" for x
    using Node.IH by (induction cs) simp_all
  then show ?case by (simp add: Let_def)
qed

lemma set_median_rel_dists_preorder:
  assumes "map nid (preorder_node_iter t) = map Some [0 ..< length (preorder_node_iter t)]"
  shows "\<exists>t'. set_median_rel_dists nd t = Inr t' \<and> nid t' = nid t \<and> rel_dist t' = Some (Some 0) \<and>
           map (\<lambda>n. (nid n, rel_dist n)) (tl (preorder_node_iter t')) =
             map (\<lambda>k. (Some k, Some (np_median_nan (dists_of nd k))))
                 [1 ..< length (preorder_node_iter t)]"
proof -
  obtain i l tx e r cs where t: "t = Node i l tx e r cs" by (cases t)
  let ?m = "length (concat (map preorder_node_iter cs))"
  have "[0 ..< 0 + Suc ?m] = 0 # [Suc 0 ..< Suc 0 + ?m]" by (rule upt_shift)
  with assms t have ids: "map nid (concat (map preorder_node_iter cs)) = map Some [1 ..< Suc ?m]"
    by (simp del: upt_Suc)
  then have "None \<notin> set (map nid (concat (map preorder_node_iter cs)))" by auto
  with t have s: "set_median_rel_dists nd t =
      Inr (Node i l tx e (Some (Some 0)) (map (median_node nd (Some 0)) cs))"
    by (simp add: set_median_rel_dists_def)
  have "map (\<lambda>n. (nid n, rel_dist n))
          (concat (map preorder_node_iter (map (median_node nd (Some 0)) cs))) =
        map (\<lambda>n. (nid n, Some (np_median_nan (case nid n of None \<Rightarrow> [] | Some k \<Rightarrow> dists_of nd k))))
            (concat (map preorder_node_iter cs))"
    using median_node_preorder by (induction cs) simp_all
  also have "\<dots> = map (\<lambda>j. (j, Some (np_median_nan (case j of None \<Rightarrow> [] | Some k \<Rightarrow> dists_of nd k))))
                    (map nid (concat (map preorder_node_iter cs)))"
    by (simp add: comp_def)
  also have "\<dots> = map (\<lambda>k. (Some k, Some (np_median_nan (dists_of nd k)))) [1 ..< Suc ?m]"
    by (simp add: ids comp_def)
  finally show ?thesis using s t by (simp del: upt_Suc)
qed

lemmas consensus_defs = run_consensus_def set_median_rel_dists_def np_median_nan_def np_median_def

text \<open>
  Claim C7, as the code has it. After all phyla are processed, \<open>run\<close> gives every node
  other than the seed node the median of the values recorded under its id by the
  rootings that visited it (the ids are the preorder indices \<open>1, 2, ...\<close>); for such
  a node that no rooting visited the list is empty and the median is numpy's \<open>nan\<close>,
  not zero. The seed node is not given a median: its value is set to \<open>0.0\<close>,
  whatever was recorded under its id.
\<close>

theorem consensus_rel_dist:
  assumes "median_rd_over_phyla E rnd fuel w tree taxa_for_dist_inference None
             = Some (Inr (w1, phylum_rel_dists, rel_node_dists))"
    and "tree < nxt w"
  shows "\<exists>w2 rows.
           run_consensus E rnd fuel w tree taxa_for_dist_inference
             = Some (Inr (w2, phylum_rel_dists, rows)) \<and>
           rel_dist (objs w2 tree) = Some (Some 0) \<and>
           map (\<lambda>n. (nid n, rel_dist n)) (tl (preorder_node_iter (objs w2 tree))) =
             map (\<lambda>k. (Some k, Some (np_median_nan (dists_of rel_node_dists k))))
                 [1 ..< length (preorder_node_iter (objs w tree))] \<and>
           (\<forall>k. dists_of rel_node_dists k = [] \<longrightarrow> np_median_nan (dists_of rel_node_dists k) = None)"
proof -
  let ?w0 = "w\<lparr>objs := (objs w)(tree := assign_ids 0 (objs w tree))\<rparr>"
  let ?t = "assign_ids 0 (objs w tree)"
  from assms(1) obtain tx where
    loop: "phyla_loop E rnd fuel tx tree (usable_phyla E (objs w tree) taxa_for_dist_inference)
             (?w0, [], []) = Some (Inr (w1, phylum_rel_dists, rel_node_dists))"
    by (auto simp: median_rd_over_phyla_def Let_def split: if_splits)
  from phyla_loop_frame [OF loop] assms(2) have t1: "objs w1 tree = ?t" by simp
  have ids: "map nid (preorder_node_iter ?t) = map Some [0 ..< length (preorder_node_iter (objs w tree))]"
    using assign_ids_preorder(1) [of 0 "objs w tree"] by simp
  then have "length (map nid (preorder_node_iter ?t))
               = length (map Some [0 ..< length (preorder_node_iter (objs w tree))])"
    by (rule arg_cong)
  then have len: "length (preorder_node_iter ?t) = length (preorder_node_iter (objs w tree))"
    by simp
  from set_median_rel_dists_preorder [of ?t rel_node_dists] ids len obtain t' where
    s: "set_median_rel_dists rel_node_dists ?t = Inr t'"
    and r: "rel_dist t' = Some (Some 0)"
    and m: "map (\<lambda>n. (nid n, rel_dist n)) (tl (preorder_node_iter t')) =
             map (\<lambda>k. (Some k, Some (np_median_nan (dists_of rel_node_dists k))))
                 [1 ..< length (preorder_node_iter (objs w tree))]"
    by auto
  have "run_consensus E rnd fuel w tree taxa_for_dist_inference
          = Some (Inr (w1\<lparr>objs := (objs w1)(tree := t')\<rparr>, phylum_rel_dists,
                       median_summary_outlier_file phylum_rel_dists taxa_for_dist_inference))"
    using assms(1) t1 s by (simp add: run_consensus_def)
  moreover have "np_median_nan [] = None"
    by (simp add: np_median_nan_def np_median_def)
  ultimately show ?thesis using r m by simp
qed

theorem consensus_rel_dist_witness:
  "(0::nat) < nxt example_world \<and>
   (case run_consensus example_env (\<lambda>k. 0) 1 example_world 0 {''p__A'', ''p__B''} of
      Some (Inr (w2, phylum_rel_dists, rows)) \<Rightarrow>
        map (\<lambda>n. (nid n, rel_dist n)) (tl (preorder_node_iter (objs w2 0))) =
          [(Some 1, Some (Some (3 / 5))), (Some 2, Some (Some 1)), (Some 3, Some (Some 1)),
           (Some 4, Some (Some (9 / 23))), (Some 5, Some (Some (16 / 23))),
           (Some 6, Some (Some 1)), (Some 7, Some (Some 1)), (Some 8, Some (Some 1))]
    | _ \<Rightarrow> False)"
proof -
  have n: "(0::nat) < nxt example_world" by (simp add: example_world_def)
  have ev: "(case run_consensus example_env (\<lambda>k. 0) 1 example_world 0 {''p__A'', ''p__B''} of
      Some (Inr (w2, phylum_rel_dists, rows)) \<Rightarrow>
        map (\<lambda>n. (nid n, rel_dist n)) (tl (preorder_node_iter (objs w2 0))) =
          [(Some 1, Some (Some (3 / 5))), (Some 2, Some (Some 1)), (Some 3, Some (Some 1)),
           (Some 4, Some (Some (9 / 23))), (Some 5, Some (Some (16 / 23))),
           (Some 6, Some (Some 1)), (Some 7, Some (Some 1)), (Some 8, Some (Some 1))]
    | _ \<Rightarrow> False)"
    by (simp add: consensus_defs aggregation_defs rooting_defs example_defs)
  have "\<exists>w1 prd nd. median_rd_over_phyla example_env (\<lambda>k. 0) 1 example_world 0 {''p__A'', ''p__B''} None
          = Some (Inr (w1, prd, nd))"
    by (simp add: aggregation_defs rooting_defs example_defs)
  then obtain w1 prd nd where
    "median_rd_over_phyla example_env (\<lambda>k. 0) 1 example_world 0 {''p__A'', ''p__B''} None
       = Some (Inr (w1, prd, nd))" by blast
  from consensus_rel_dist [OF this n] n ev show ?thesis by blast
qed

text \<open>
  In the example no rooting visits the seed node (a rerooting removes it), so nothing
  is recorded under its id 0; its consensus value is nevertheless the number 0.
\<close>

theorem consensus_seed_node_counterexample:
  "(case median_rd_over_phyla example_env (\<lambda>k. 0) 1 example_world 0 {''p__A'', ''p__B''} None of
      Some (Inr (w1, phylum_rel_dists, rel_node_dists)) \<Rightarrow>
        dists_of rel_node_dists 0 = [] \<and> np_median_nan (dists_of rel_node_dists 0) = None
    | _ \<Rightarrow> False) \<and>
   (case run_consensus example_env (\<lambda>k. 0) 1 example_world 0 {''p__A'', ''p__B''} of
      Some (Inr (w2, phylum_rel_dists, rows)) \<Rightarrow>
        (nid (objs w2 0), rel_dist (objs w2 0)) = (Some 0, Some (Some 0))
    | _ \<Rightarrow> False)"
  by (simp add: consensus_defs aggregation_defs rooting_defs example_defs)

section \<open>The order of the rootings\<close>

text \<open>
  Claim C6 at an input on which the code departs from it. The tables of a rooting are
  stored under the normalised name of its phylum, and \<open>p__A\<close> and \<open>p__a\<close> have the same
  normalised name \<open>a\<close>: the table of the rooting processed last replaces the other one.
  With the phyla in the order \<open>p__A\<close>, \<open>p__a\<close> the consensus of the taxon \<open>p__B\<close> is the
  median of \<open>[46/95]\<close>, in the order \<open>p__a\<close>, \<open>p__A\<close> it is the median of \<open>[73/185]\<close>. The
  values recorded for the node of \<open>p__B\<close> (id 7) are the same two numbers in both
  orders, and its consensus is \<open>3089/7030\<close> in both.
\<close>

theorem phylum_name_collision:
  "phylum_name ''p__A'' = phylum_name ''p__a'' \<and>
   usable_phyla example_env case_names_tree {''p__A'', ''p__a''} = [''p__A'', ''p__a''] \<and>
   usable_phyla reversed_env case_names_tree {''p__A'', ''p__a''} = [''p__a'', ''p__A''] \<and>
   (case median_rd_over_phyla example_env (\<lambda>k. 0) 1 case_names_world 0 {''p__A'', ''p__a''} None of
      Some (Inr (w, phylum_rel_dists, rel_node_dists)) \<Rightarrow>
        taxa_median_rd phylum_rel_dists =
          [(1, [(''p__B'', [46 / 95]), (''p__A'', [12 / 19])]), (2, [(''c__Y'', [141 / 190])])] \<and>
        dists_of rel_node_dists 7 = [Some (73 / 185), Some (46 / 95)] \<and>
        np_median_nan (dists_of rel_node_dists 7) = Some (3089 / 7030)
    | _ \<Rightarrow> False) \<and>
   (case median_rd_over_phyla reversed_env (\<lambda>k. 0) 1 case_names_world 0 {''p__A'', ''p__a''} None of
      Some (Inr (w, phylum_rel_dists, rel_node_dists)) \<Rightarrow>
        taxa_median_rd phylum_rel_dists =
          [(1, [(''p__B'', [73 / 185]), (''p__a'', [79 / 111])]), (2, [(''c__Y'', [129 / 185])])] \<and>
        dists_of rel_node_dists 7 = [Some (46 / 95), Some (73 / 185)] \<and>
        np_median_nan (dists_of rel_node_dists 7) = Some (3089 / 7030)
    | _ \<Rightarrow> False)"
proof -
  have a: "phylum_name ''p__A'' = phylum_name ''p__a''"
    by (simp add: phylum_name_def lower_def lower_char_def)
  have b: "usable_phyla example_env case_names_tree {''p__A'', ''p__a''} = [''p__A'', ''p__a'']"
    by (simp add: usable_phyla_def case_names_tree_def example_defs)
  have c: "usable_phyla reversed_env case_names_tree {''p__A'', ''p__a''} = [''p__a'', ''p__A'']"
    by (simp add: usable_phyla_def case_names_tree_def reversed_env_def example_defs)
  have d: "(case median_rd_over_phyla example_env (\<lambda>k. 0) 1 case_names_world 0 {''p__A'', ''p__a''} None of
      Some (Inr (w, phylum_rel_dists, rel_node_dists)) \<Rightarrow>
        taxa_median_rd phylum_rel_dists =
          [(1, [(''p__B'', [46 / 95]), (''p__A'', [12 / 19])]), (2, [(''c__Y'', [141 / 190])])] \<and>
        dists_of rel_node_dists 7 = [Some (73 / 185), Some (46 / 95)] \<and>
        np_median_nan (dists_of rel_node_dists 7) = Some (3089 / 7030)
    | _ \<Rightarrow> False)"
    by (simp add: aggregation_defs rooting_defs example_defs case_names_tree_def case_names_world_def
          taxa_median_rd_def append_dist_def np_median_nan_def np_median_def)
  have e: "(case median_rd_over_phyla reversed_env (\<lambda>k. 0) 1 case_names_world 0 {''p__A'', ''p__a''} None of
      Some (Inr (w, phylum_rel_dists, rel_node_dists)) \<Rightarrow>
        taxa_median_rd phylum_rel_dists =
          [(1, [(''p__B'', [73 / 185]), (''p__a'', [79 / 111])]), (2, [(''c__Y'', [129 / 185])])] \<and>
        dists_of rel_node_dists 7 = [Some (46 / 95), Some (73 / 185)] \<and>
        np_median_nan (dists_of rel_node_dists 7) = Some (3089 / 7030)
    | _ \<Rightarrow> False)"
    by (simp add: aggregation_defs rooting_defs example_defs case_names_tree_def case_names_world_def
          reversed_env_def taxa_median_rd_def append_dist_def np_median_nan_def np_median_def)
  from a b c d e show ?thesis by blast
qed

subsection \<open>What does not depend on the order\<close>

lemma np_median_mset: "mset xs = mset ys \<Longrightarrow> np_median xs = np_median ys"
proof -
  assume a: "mset xs = mset ys"
  then have "sort xs = sort ys"
    by (metis properties_for_sort sorted_sort mset_sort)
  moreover from a have "length xs = length ys" by (rule mset_eq_length)
  ultimately show ?thesis by (simp add: np_median_def)
qed

lemma those_eq: "those xs = (if None \<in> set xs then None else Some (map the xs))"
  by (induction xs) (auto split: option.splits)

lemma np_median_nan_mset: "mset xs = mset ys \<Longrightarrow> np_median_nan xs = np_median_nan ys"
proof -
  assume a: "mset xs = mset ys"
  then have s: "set xs = set ys" by (rule mset_eq_setD)
  from a have "mset (map the xs) = mset (map the ys)" by simp
  then have "np_median (map the xs) = np_median (map the ys)" by (rule np_median_mset)
  with s show ?thesis by (simp add: np_median_nan_def those_eq)
qed

lemma dists_of_update:
  "dists_of (AList.update i vs acc) k = (if k = i then vs else dists_of acc k)"
  by (simp add: dists_of_def update_conv')

lemma record_rel_dists_observed:
  "record_rel_dists ns acc = Inr acc' \<Longrightarrow> dists_of acc' k = dists_of acc k @ observed ns k"
proof (induction ns arbitrary: acc)
  case Nil
  then show ?case by (simp add: observed_def)
next
  case (Cons n ns)
  from Cons.prems obtain i v where i: "nid n = Some i" and v: "rel_dist n = Some v"
    and r: "record_rel_dists ns (AList.update i (dists_of acc i @ [v]) acc) = Inr acc'"
    by (auto split: option.splits)
  from Cons.IH [OF r] i v show ?case
    by (simp add: dists_of_update observed_def)
qed

lemma record_rel_dists_succeeds:
  "(\<exists>acc'. record_rel_dists ns acc = Inr acc') \<longleftrightarrow> None \<notin> nid ` set ns \<and> None \<notin> rel_dist ` set ns"
proof (induction ns arbitrary: acc)
  case Nil
  then show ?case by simp
next
  case (Cons n ns)
  show ?case
  proof (cases "nid n")
    case None
    then show ?thesis by (auto simp: image_iff)
  next
    case (Some i)
    show ?thesis
    proof (cases "rel_dist n")
      case None
      with Some show ?thesis by (auto simp: image_iff)
    next
      case (Some v)
      with \<open>nid n = Some i\<close> Cons.IH [of "AList.update i (dists_of acc i @ [v]) acc"]
      show ?thesis by simp
    qed
  qed
qed

lemma phyla_loop_fixed:
  assumes "\<forall>p \<in> set ps. rooting_fixed E rnd fuel tx tree t0 p (R p) (N p)"
    and "objs w tree = t0" and "tree < nxt w"
    and "phyla_loop E rnd fuel tx tree ps (w, a, b) = Some (Inr (w', a', b'))"
  shows "(\<forall>p \<in> set ps. None \<notin> nid ` set (N p) \<and> None \<notin> rel_dist ` set (N p)) \<and>
         a' = foldl (\<lambda>a p. AList.update (phylum_name p) (R p) a) a ps \<and>
         (\<forall>k. dists_of b' k = dists_of b k @ concat (map (\<lambda>p. observed (N p) k) ps))"
  using assms
proof (induction ps arbitrary: w a b)
  case Nil
  then show ?case by simp
next
  case (Cons p ps)
  from Cons.prems(1) have "rooting_fixed E rnd fuel tx tree t0 p (R p) (N p)" by simp
  with Cons.prems(2,3) obtain w1 where
    s: "phylum_step E rnd fuel tx tree (w, a, b) p =
          (case record_rel_dists (N p) b of
             Inl e \<Rightarrow> Some (Inl e)
           | Inr b1 \<Rightarrow> Some (Inr (w1, AList.update (phylum_name p) (R p) a, b1)))"
    unfolding rooting_fixed_def by blast
  show ?case
  proof (cases "record_rel_dists (N p) b")
    case (Inl e)
    with s Cons.prems(4) show ?thesis by simp
  next
    case (Inr b1)
    with s have s1: "phylum_step E rnd fuel tx tree (w, a, b) p
                       = Some (Inr (w1, AList.update (phylum_name p) (R p) a, b1))"
      by simp
    with Cons.prems(4)
    have l: "phyla_loop E rnd fuel tx tree ps (w1, AList.update (phylum_name p) (R p) a, b1)
               = Some (Inr (w', a', b'))"
      by simp
    from phylum_step_frame [OF s1 Cons.prems(3)] Cons.prems(2)
    have f: "objs w1 tree = t0" "tree < nxt w1" by simp_all
    from Cons.prems(1) have h: "\<forall>p \<in> set ps. rooting_fixed E rnd fuel tx tree t0 p (R p) (N p)"
      by simp
    note ih = Cons.IH [OF h f l]
    have ok: "None \<notin> nid ` set (N p) \<and> None \<notin> rel_dist ` set (N p)"
      using record_rel_dists_succeeds [of "N p" b] Inr by blast
    have "dists_of b1 k = dists_of b k @ observed (N p) k" for k
      using Inr by (rule record_rel_dists_observed)
    with ih ok show ?thesis by simp
  qed
qed

lemma phyla_loop_fixed_succeeds:
  assumes "\<forall>p \<in> set ps. rooting_fixed E rnd fuel tx tree t0 p (R p) (N p)"
    and "objs w tree = t0" and "tree < nxt w"
    and "\<forall>p \<in> set ps. None \<notin> nid ` set (N p) \<and> None \<notin> rel_dist ` set (N p)"
  shows "\<exists>w' a' b'. phyla_loop E rnd fuel tx tree ps (w, a, b) = Some (Inr (w', a', b'))"
  using assms
proof (induction ps arbitrary: w a b)
  case Nil
  then show ?case by simp
next
  case (Cons p ps)
  from Cons.prems(1) have "rooting_fixed E rnd fuel tx tree t0 p (R p) (N p)" by simp
  with Cons.prems(2,3) obtain w1 where
    s: "phylum_step E rnd fuel tx tree (w, a, b) p =
          (case record_rel_dists (N p) b of
             Inl e \<Rightarrow> Some (Inl e)
           | Inr b1 \<Rightarrow> Some (Inr (w1, AList.update (phylum_name p) (R p) a, b1)))"
    unfolding rooting_fixed_def by blast
  from Cons.prems(4) obtain b1 where b1: "record_rel_dists (N p) b = Inr b1"
    using record_rel_dists_succeeds [of "N p" b] by auto
  with s have s1: "phylum_step E rnd fuel tx tree (w, a, b) p
                     = Some (Inr (w1, AList.update (phylum_name p) (R p) a, b1))"
    by simp
  from phylum_step_frame [OF s1 Cons.prems(3)] Cons.prems(2)
  have f: "objs w1 tree = t0" "tree < nxt w1" by simp_all
  from Cons.prems(1) have h: "\<forall>p \<in> set ps. rooting_fixed E rnd fuel tx tree t0 p (R p) (N p)"
    by simp
  from Cons.prems(4) have o: "\<forall>p \<in> set ps. None \<notin> nid ` set (N p) \<and> None \<notin> rel_dist ` set (N p)"
    by simp
  from Cons.IH [OF h f o, of "AList.update (phylum_name p) (R p) a" b1] s1
  show ?case by simp
qed

lemma concat_map_mset:
  "mset ps' = mset ps \<Longrightarrow> mset (concat (map f ps')) = mset (concat (map f ps))"
proof -
  assume "mset ps' = mset ps"
  then have "mset (map (\<lambda>p. mset (f p)) ps') = mset (map (\<lambda>p. mset (f p)) ps)" by simp
  then have "sum_list (map (\<lambda>p. mset (f p)) ps') = sum_list (map (\<lambda>p. mset (f p)) ps)"
    by (metis sum_mset_sum_list)
  then show ?thesis by (simp add: mset_concat comp_def)
qed

text \<open>
  When every rooting is fixed, the loop over the phyla in another order returns as
  well, and the median of the values recorded for a node is the same: the values
  are the same, in another order.
\<close>

lemma node_consensus_order:
  assumes "\<forall>p \<in> set ps. rooting_fixed E rnd fuel tx tree (objs w tree) p (R p) (N p)"
    and "mset ps' = mset ps" and "tree < nxt w"
    and "phyla_loop E rnd fuel tx tree ps (w, [], []) = Some (Inr (w1, prd, nd))"
  shows "\<exists>w1' prd' nd'.
           phyla_loop E rnd fuel tx tree ps' (w, [], []) = Some (Inr (w1', prd', nd')) \<and>
           (\<forall>k. mset (dists_of nd' k) = mset (dists_of nd k) \<and>
                np_median_nan (dists_of nd' k) = np_median_nan (dists_of nd k))"
proof -
  from assms(2) have st: "set ps' = set ps" by (rule mset_eq_setD)
  from phyla_loop_fixed [OF assms(1) refl assms(3,4)]
  have ok: "\<forall>p \<in> set ps. None \<notin> nid ` set (N p) \<and> None \<notin> rel_dist ` set (N p)"
    and d: "\<And>k. dists_of nd k = dists_of [] k @ concat (map (\<lambda>p. observed (N p) k) ps)"
    by simp_all
  from assms(1) st have h': "\<forall>p \<in> set ps'. rooting_fixed E rnd fuel tx tree (objs w tree) p (R p) (N p)"
    by simp
  from ok st have ok': "\<forall>p \<in> set ps'. None \<notin> nid ` set (N p) \<and> None \<notin> rel_dist ` set (N p)"
    by simp
  from phyla_loop_fixed_succeeds [OF h' refl assms(3) ok', of "[]" "[]"] obtain w1' prd' nd'
    where l': "phyla_loop E rnd fuel tx tree ps' (w, [], []) = Some (Inr (w1', prd', nd'))"
    by blast
  from phyla_loop_fixed [OF h' refl assms(3) l']
  have d': "\<And>k. dists_of nd' k = dists_of [] k @ concat (map (\<lambda>p. observed (N p) k) ps')"
    by simp
  have "mset (dists_of nd' k) = mset (dists_of nd k)" for k
    using concat_map_mset [OF assms(2), of "\<lambda>p. observed (N p) k"] d [of k] d' [of k]
    by simp
  then have "\<forall>k. mset (dists_of nd' k) = mset (dists_of nd k) \<and>
                np_median_nan (dists_of nd' k) = np_median_nan (dists_of nd k)"
    using np_median_nan_mset by blast
  with l' show ?thesis by blast
qed

lemma taxon_dists_append_dist:
  "taxon_dists (append_dist r t v m) rank taxon =
     taxon_dists m rank taxon @ (if r = rank \<and> t = taxon then [v] else [])"
  by (auto simp: taxon_dists_def append_dist_def Let_def update_conv' split: option.splits)

lemma taxon_dists_fold_table:
  "taxon_dists (foldl (\<lambda>m (t, v). append_dist r t v m) m d) rank taxon =
     taxon_dists m rank taxon @ (if r = rank then map snd (filter (\<lambda>(t, v). t = taxon) d) else [])"
  by (induction d arbitrary: m) (auto simp: taxon_dists_append_dist)

lemma taxon_dists_fold_tables:
  "taxon_dists (foldl (\<lambda>m (r, d). foldl (\<lambda>m (t, v). append_dist r t v m) m d) m rds) rank taxon =
     taxon_dists m rank taxon @ table_dists rds rank taxon"
  by (induction rds arbitrary: m) (auto simp: taxon_dists_fold_table table_dists_def)

lemma taxon_dists_fold_rootings:
  "taxon_dists
     (foldl (\<lambda>m (p, rds). foldl (\<lambda>m (r, d). foldl (\<lambda>m (t, v). append_dist r t v m) m d) m rds) m prd)
     rank taxon =
   taxon_dists m rank taxon @ concat (map (\<lambda>e. table_dists (snd e) rank taxon) prd)"
  by (induction prd arbitrary: m) (auto simp: taxon_dists_fold_tables)

lemma taxon_dists_taxa_median_rd:
  "taxon_dists (taxa_median_rd prd) rank taxon = concat (map (\<lambda>e. table_dists (snd e) rank taxon) prd)"
  by (simp add: taxa_median_rd_def taxon_dists_fold_rootings) (simp add: taxon_dists_def)

lemma update_new_key: "k \<notin> fst ` set al \<Longrightarrow> AList.update k v al = al @ [(k, v)]"
  by (induction al) auto

lemma foldl_update_distinct:
  "distinct (map f ps) \<Longrightarrow> f ` set ps \<inter> fst ` set al = {} \<Longrightarrow>
   foldl (\<lambda>a p. AList.update (f p) (g p) a) al ps = al @ map (\<lambda>p. (f p, g p)) ps"
proof (induction ps arbitrary: al)
  case Nil
  then show ?case by simp
next
  case (Cons p ps)
  from Cons.prems(2) have "f p \<notin> fst ` set al" by auto
  then have u: "AList.update (f p) (g p) al = al @ [(f p, g p)]" by (rule update_new_key)
  from Cons.prems have "distinct (map f ps)" and "f ` set ps \<inter> fst ` set (al @ [(f p, g p)]) = {}"
    by auto
  from Cons.IH [OF this] u show ?case by simp
qed

text \<open>
  When moreover the normalised names of the phyla are pairwise distinct, every rooting
  keeps its table, and the median of the values of a taxon at a rank is the same in
  either order.
\<close>

lemma taxon_consensus_order:
  assumes "\<forall>p \<in> set ps. rooting_fixed E rnd fuel tx tree (objs w tree) p (R p) (N p)"
    and "mset ps' = mset ps" and "tree < nxt w"
    and "distinct (map phylum_name ps)"
    and "phyla_loop E rnd fuel tx tree ps (w, [], []) = Some (Inr (w1, prd, nd))"
    and "phyla_loop E rnd fuel tx tree ps' (w, [], []) = Some (Inr (w1', prd', nd'))"
  shows "mset (taxon_dists (taxa_median_rd prd') rank taxon)
           = mset (taxon_dists (taxa_median_rd prd) rank taxon) \<and>
         np_median (taxon_dists (taxa_median_rd prd') rank taxon)
           = np_median (taxon_dists (taxa_median_rd prd) rank taxon)"
proof -
  from assms(2) have st: "set ps' = set ps" by (rule mset_eq_setD)
  from assms(1) st have h': "\<forall>p \<in> set ps'. rooting_fixed E rnd fuel tx tree (objs w tree) p (R p) (N p)"
    by simp
  from assms(2,4) have d': "distinct (map phylum_name ps')"
    by (metis distinct_map mset_eq_imp_distinct_iff set_mset_mset inj_on_def st)
  from phyla_loop_fixed [OF assms(1) refl assms(3,5)] foldl_update_distinct [OF assms(4), of "[]" R]
  have p: "prd = map (\<lambda>p. (phylum_name p, R p)) ps" by simp
  from phyla_loop_fixed [OF h' refl assms(3,6)] foldl_update_distinct [OF d', of "[]" R]
  have p': "prd' = map (\<lambda>p. (phylum_name p, R p)) ps'" by simp
  have "mset (concat (map (\<lambda>p. table_dists (R p) rank taxon) ps'))
          = mset (concat (map (\<lambda>p. table_dists (R p) rank taxon) ps))"
    using assms(2) by (rule concat_map_mset)
  then have "mset (taxon_dists (taxa_median_rd prd') rank taxon)
               = mset (taxon_dists (taxa_median_rd prd) rank taxon)"
    by (simp add: taxon_dists_taxa_median_rd p p' comp_def)
  then show ?thesis using np_median_mset by blast
qed

text \<open>
  The rootings of the example are fixed, and its two phyla have distinct normalised
  names: in the order \<open>p__B\<close>, \<open>p__A\<close> the loop gives the same medians as in the order
  \<open>p__A\<close>, \<open>p__B\<close>, for every node and for every taxon.
\<close>

lemmas example_step_defs = median_rd_over_phyla_def usable_phyla_def phylum_step_def strip_outgroup_def
  ingroup_subtree_def is_ingroup_def rooting_defs example_env_def example_tree_def
  example_taxonomy_def example_leaf_def example_clade_def example_reroot_def set_edge_def
  edge_len_def covers_def example_decorate_def example_named_clades_def rank_index_def
  example_children_def example_tables_def example_ingroup_def

lemma example_rootings_fixed:
  "\<forall>p \<in> set [''p__A'', ''p__B''].
     rooting_fixed example_env (\<lambda>k. 0) 1 example_taxonomy 0 (objs example_ids_world 0) p
       (example_tables p) (example_ingroup p)"
proof -
  have "\<exists>w'. phylum_step example_env (\<lambda>k. 0) 1 example_taxonomy 0 (w, a, b) ''p__A'' =
           (case record_rel_dists (example_ingroup ''p__A'') b of
              Inl e \<Rightarrow> Some (Inl e)
            | Inr b' \<Rightarrow> Some (Inr (w', AList.update (phylum_name ''p__A'') (example_tables ''p__A'') a, b')))"
    if "objs w 0 = assign_ids 0 example_tree" and "nxt w \<noteq> 0" for w a b
  proof (cases "record_rel_dists (example_ingroup ''p__A'') b")
    case (Inl e)
    with that show ?thesis
      by (simp add: example_step_defs numeral_2_eq_2 [symmetric] del: record_rel_dists.simps)
  next
    case (Inr b')
    with that show ?thesis
      by (simp add: example_step_defs numeral_2_eq_2 [symmetric] del: record_rel_dists.simps)
  qed
  moreover
  have "\<exists>w'. phylum_step example_env (\<lambda>k. 0) 1 example_taxonomy 0 (w, a, b) ''p__B'' =
           (case record_rel_dists (example_ingroup ''p__B'') b of
              Inl e \<Rightarrow> Some (Inl e)
            | Inr b' \<Rightarrow> Some (Inr (w', AList.update (phylum_name ''p__B'') (example_tables ''p__B'') a, b')))"
    if "objs w 0 = assign_ids 0 example_tree" and "nxt w \<noteq> 0" for w a b
  proof (cases "record_rel_dists (example_ingroup ''p__B'') b")
    case (Inl e)
    with that show ?thesis
      by (simp add: example_step_defs numeral_2_eq_2 [symmetric] del: record_rel_dists.simps)
  next
    case (Inr b')
    with that show ?thesis
      by (simp add: example_step_defs numeral_2_eq_2 [symmetric] del: record_rel_dists.simps)
  qed
  ultimately show ?thesis
    by (simp add: rooting_fixed_def example_ids_world_def)
qed

lemma example_consensus_order:
  "\<exists>w1 prd nd w1' prd' nd'.
     phyla_loop example_env (\<lambda>k. 0) 1 example_taxonomy 0 [''p__A'', ''p__B''] (example_ids_world, [], [])
       = Some (Inr (w1, prd, nd)) \<and>
     phyla_loop example_env (\<lambda>k. 0) 1 example_taxonomy 0 [''p__B'', ''p__A''] (example_ids_world, [], [])
       = Some (Inr (w1', prd', nd')) \<and>
     (\<forall>k. np_median_nan (dists_of nd' k) = np_median_nan (dists_of nd k)) \<and>
     (\<forall>rank taxon. np_median (taxon_dists (taxa_median_rd prd') rank taxon)
                     = np_median (taxon_dists (taxa_median_rd prd) rank taxon))"
proof -
  note h = example_rootings_fixed
  have n: "0 < nxt example_ids_world" by (simp add: example_ids_world_def)
  have m: "mset [''p__B'', ''p__A''] = mset [''p__A'', ''p__B'']" by simp
  have d: "distinct (map phylum_name [''p__A'', ''p__B''])"
    by (simp add: phylum_name_def lower_def lower_char_def)
  have ok: "\<forall>p \<in> set [''p__A'', ''p__B''].
              None \<notin> nid ` set (example_ingroup p) \<and> None \<notin> rel_dist ` set (example_ingroup p)"
    by (simp add: example_ingroup_def)
  from phyla_loop_fixed_succeeds [OF h refl n ok, of "[]" "[]"] obtain w1 prd nd where
    l: "phyla_loop example_env (\<lambda>k. 0) 1 example_taxonomy 0 [''p__A'', ''p__B'']
          (example_ids_world, [], []) = Some (Inr (w1, prd, nd))" by blast
  from node_consensus_order [OF h m n l] obtain w1' prd' nd' where
    l': "phyla_loop example_env (\<lambda>k. 0) 1 example_taxonomy 0 [''p__B'', ''p__A'']
          (example_ids_world, [], []) = Some (Inr (w1', prd', nd'))"
    and c: "\<forall>k. np_median_nan (dists_of nd' k) = np_median_nan (dists_of nd k)" by blast
  from taxon_consensus_order [OF h m n d l l']
  have "\<forall>rank taxon. np_median (taxon_dists (taxa_median_rd prd') rank taxon)
                     = np_median (taxon_dists (taxa_median_rd prd) rank taxon)" by blast
  with l l' c show ?thesis by blast
qed

end
